theory Spec2Isabelle
  imports Main "HOL-Library.Word"
begin

section \<open>Machine types of \<^verbatim>\<open>io_adapter.cc\<close>\<close>

text \<open>
  The adapters are modelled for an LP64 target: \<^verbatim>\<open>size_t\<close>, \<^verbatim>\<open>ssize_t\<close>,
  \<^verbatim>\<open>std::ptrdiff_t\<close> and pointers are 64 bits wide, \<^verbatim>\<open>int\<close> and
  \<^verbatim>\<open>unsigned int\<close> are 32 bits wide. A signed type is a word read with \<open>sint\<close>, an
  unsigned one a word read with \<open>unat\<close>; a conversion between types of the same width
  keeps the bits.
\<close>

type_synonym byte = "8 word"
type_synonym size_t = "64 word"
type_synonym ssize_t = "64 word"
type_synonym ptrdiff_t = "64 word"
type_synonym c_int = "32 word"
type_synonym c_uint = "32 word"
type_synonym addr = "64 word"

text \<open>Memory as the adapters see it: one byte at every address.\<close>

type_synonym memory = "addr \<Rightarrow> byte"

text \<open>
  \<^verbatim>\<open>std::memcpy(buffer, src, n)\<close>: the bytes that arrive in the destination are the
  \<open>n\<close> bytes found from address \<open>src\<close> on.
\<close>

definition memcpy_bytes :: "memory \<Rightarrow> addr \<Rightarrow> size_t \<Rightarrow> byte list" where
  "memcpy_bytes mem src n = map (\<lambda>i. mem (src + of_nat i)) [0..<unat n]"

text \<open>\<^verbatim>\<open>std::min(a, b)\<close> on \<^verbatim>\<open>std::ptrdiff_t\<close>: \<^verbatim>\<open>(b < a) ? b : a\<close>, compared signed.\<close>

definition std_min :: "ptrdiff_t \<Rightarrow> ptrdiff_t \<Rightarrow> ptrdiff_t" where
  "std_min a b = (if sint b < sint a then b else a)"

section \<open>buffer\_view\<close>

text \<open>
  \<^verbatim>\<open>struct buffer_view : public reader\<close> with its three private fields. The byte range
  it reads belongs to the caller and lives in \<open>memory\<close>.
\<close>

record buffer_view =
  bv_data :: addr
  bv_read_head :: addr
  bv_len :: size_t

text \<open>\<^verbatim>\<open>buffer_view::buffer_view(const char* data, size_t len)\<close>.\<close>

definition buffer_view_ctor :: "addr \<Rightarrow> size_t \<Rightarrow> buffer_view" where
  "buffer_view_ctor data len = \<lparr>bv_data = data, bv_read_head = data, bv_len = len\<rparr>"

text \<open>
  \<^verbatim>\<open>buffer_view::read\<close>: the request is clipped to the bytes left, nothing happens when
  the clipped request is zero, otherwise the bytes are copied and the cursor moves on.
  The result is the returned count, the bytes copied to the caller's buffer and the
  adapter afterwards.
\<close>

definition buffer_view_read ::
  "memory \<Rightarrow> buffer_view \<Rightarrow> size_t \<Rightarrow> ssize_t \<times> byte list \<times> buffer_view" where
  "buffer_view_read mem v num_bytes =
     (let num_bytes' = std_min ((bv_data v + bv_len v) - bv_read_head v) num_bytes
      in if num_bytes' = 0 then (0, [], v)
         else (num_bytes',
               memcpy_bytes mem (bv_read_head v) num_bytes',
               v\<lparr>bv_read_head := bv_read_head v + num_bytes'\<rparr>))"

text \<open>\<^verbatim>\<open>buffer_view::reset\<close>.\<close>

definition buffer_view_reset :: "buffer_view \<Rightarrow> buffer_view" where
  "buffer_view_reset v = v\<lparr>bv_read_head := bv_data v\<rparr>"

section \<open>Failures\<close>

text \<open>
  What ends a call without a result: the exception that \<^verbatim>\<open>THROWERRNO\<close> throws (its
  message and the value of \<^verbatim>\<open>errno\<close>), a failed \<^verbatim>\<open>assert\<close> (the text of the
  asserted condition; assertions are taken as compiled in), and the rejection of
  \<^verbatim>\<open>reset()\<close> by a reader that is not resettable.
\<close>

datatype error =
    Vw_exception string int
  | Assertion_failed string
  | Reset_not_supported

text \<open>\<^verbatim>\<open>enum class file_mode { read, write }\<close>.\<close>

datatype file_mode = File_read | File_write

section \<open>The operating system under the adapters\<close>

text \<open>
  The POSIX calls of the non-Windows branches: \<^verbatim>\<open>open\<close>, \<^verbatim>\<open>read\<close>, \<^verbatim>\<open>write\<close>,
  \<^verbatim>\<open>lseek\<close> and \<^verbatim>\<open>close\<close>. A path names a regular file or a FIFO, with its contents
  (for a FIFO the bytes that wait in it, its writer gone) and the two permissions of the
  calling process. A file can be created in the working directory and in the directories
  that exist, \<open>os_dirs\<close>, each written with its final slash. A descriptor is open on a
  path, with its offset and access mode, or on a socket, with the bytes still to be
  received and the bytes sent so far. Every call of \<^verbatim>\<open>close\<close> is logged with its
  argument.
\<close>

datatype node_kind = Regular_file | Fifo

datatype open_flags = O_rdonly | O_creat_wronly_trunc

datatype fd_entry =
    Fd_file string nat open_flags
  | Fd_socket "byte list" "byte list"

record file_node =
  fn_kind :: node_kind
  fn_contents :: "byte list"
  fn_readable :: bool
  fn_writable :: bool

record os_state =
  os_dirs :: "string list"
  os_files :: "string \<rightharpoonup> file_node"
  os_fds :: "nat \<rightharpoonup> fd_entry"
  os_next_fd :: nat
  os_errno :: int
  os_close_calls :: "int list"

definition ENOENT :: int where "ENOENT = 2"
definition EBADF :: int where "EBADF = 9"
definition EACCES :: int where "EACCES = 13"
definition ESPIPE :: int where "ESPIPE = 29"

definition sys_fail :: "os_state \<Rightarrow> int \<Rightarrow> os_state" where
  "sys_fail os e = os\<lparr>os_errno := e\<rparr>"

definition file_bytes :: "os_state \<Rightarrow> string \<Rightarrow> byte list" where
  "file_bytes os path = (case os_files os path of None \<Rightarrow> [] | Some f \<Rightarrow> fn_contents f)"

definition path_kind :: "os_state \<Rightarrow> string \<Rightarrow> node_kind" where
  "path_kind os path = (case os_files os path of None \<Rightarrow> Regular_file | Some f \<Rightarrow> fn_kind f)"

definition set_file_bytes :: "os_state \<Rightarrow> string \<Rightarrow> byte list \<Rightarrow> os_state" where
  "set_file_bytes os path bs =
     (case os_files os path of
        None \<Rightarrow> os
      | Some f \<Rightarrow> os\<lparr>os_files := (os_files os)(path \<mapsto> f\<lparr>fn_contents := bs\<rparr>)\<rparr>)"

text \<open>The directory part of a path: what stands before its last slash, with that slash.\<close>

definition dir_of :: "string \<Rightarrow> string" where
  "dir_of path = rev (dropWhile (\<lambda>c. c \<noteq> CHR ''/'') (rev path))"

definition dir_exists :: "os_state \<Rightarrow> string \<Rightarrow> bool" where
  "dir_exists os d = (d = [] \<or> d \<in> set (os_dirs os))"

text \<open>A new descriptor: one that is not in use, here the next of a counter.\<close>

definition install_fd :: "os_state \<Rightarrow> fd_entry \<Rightarrow> int \<times> os_state" where
  "install_fd os e =
     (int (os_next_fd os),
      os\<lparr>os_fds := (os_fds os)(os_next_fd os \<mapsto> e), os_next_fd := Suc (os_next_fd os)\<rparr>)"

text \<open>
  \<^verbatim>\<open>open(path, flags)\<close>. The empty path names no file (\<^verbatim>\<open>ENOENT\<close>). Reading needs an
  existing, readable file or FIFO. Writing creates a regular file where none is, when
  its directory exists (\<^verbatim>\<open>ENOENT\<close> otherwise), and truncates a writable regular file;
  a FIFO keeps its bytes.
\<close>

definition sys_open :: "os_state \<Rightarrow> string \<Rightarrow> open_flags \<Rightarrow> int \<times> os_state" where
  "sys_open os path flags =
     (if path = [] then (- 1, sys_fail os ENOENT)
      else case flags of
        O_rdonly \<Rightarrow>
          (case os_files os path of
             None \<Rightarrow> (- 1, sys_fail os ENOENT)
           | Some f \<Rightarrow>
               if fn_readable f then install_fd os (Fd_file path 0 O_rdonly)
               else (- 1, sys_fail os EACCES))
      | O_creat_wronly_trunc \<Rightarrow>
          (case os_files os path of
             None \<Rightarrow>
               if dir_exists os (dir_of path)
               then install_fd
                 (os\<lparr>os_files := (os_files os)(path \<mapsto>
                    \<lparr>fn_kind = Regular_file, fn_contents = [], fn_readable = True,
                       fn_writable = True\<rparr>)\<rparr>)
                 (Fd_file path 0 O_creat_wronly_trunc)
               else (- 1, sys_fail os ENOENT)
           | Some f \<Rightarrow>
               if fn_writable f
               then install_fd
                 (os\<lparr>os_files := (os_files os)(path \<mapsto>
                    (case fn_kind f of Regular_file \<Rightarrow> f\<lparr>fn_contents := []\<rparr> | Fifo \<Rightarrow> f))\<rparr>)
                 (Fd_file path 0 O_creat_wronly_trunc)
               else (- 1, sys_fail os EACCES)))"

text \<open>
  \<^verbatim>\<open>read(fd, buffer, count)\<close>: the count returned, the bytes stored in the buffer and the
  system afterwards. A descriptor that is negative, not open or not open for reading
  gives \<open>- 1\<close> with \<^verbatim>\<open>EBADF\<close>. A regular file is read at the descriptor's offset and
  keeps its bytes; the bytes read from a FIFO are gone from it.
\<close>

definition sys_read :: "os_state \<Rightarrow> int \<Rightarrow> size_t \<Rightarrow> ssize_t \<times> byte list \<times> os_state" where
  "sys_read os fd count =
     (if fd < 0 then (- 1, [], sys_fail os EBADF)
      else case os_fds os (nat fd) of
        None \<Rightarrow> (- 1, [], sys_fail os EBADF)
      | Some (Fd_file path off flags) \<Rightarrow>
          (case flags of
             O_creat_wronly_trunc \<Rightarrow> (- 1, [], sys_fail os EBADF)
           | O_rdonly \<Rightarrow>
               (case path_kind os path of
                  Regular_file \<Rightarrow>
                    (let bs = take (unat count) (drop off (file_bytes os path))
                     in (of_nat (length bs), bs,
                         os\<lparr>os_fds := (os_fds os)(nat fd \<mapsto>
                              Fd_file path (off + length bs) flags)\<rparr>))
                | Fifo \<Rightarrow>
                    (let bs = take (unat count) (file_bytes os path)
                     in (of_nat (length bs), bs,
                         set_file_bytes os path (drop (unat count) (file_bytes os path))))))
      | Some (Fd_socket inb outb) \<Rightarrow>
          (let bs = take (unat count) inb
           in (of_nat (length bs), bs,
               os\<lparr>os_fds := (os_fds os)(nat fd \<mapsto> Fd_socket (drop (unat count) inb) outb)\<rparr>)))"

text \<open>
  \<^verbatim>\<open>write(fd, buffer, count)\<close>: the bytes are the \<open>count\<close> bytes of memory from
  \<open>buffer\<close> on; a regular file takes them at the descriptor's offset, a FIFO after the
  bytes that wait in it.
\<close>

definition sys_write ::
  "os_state \<Rightarrow> memory \<Rightarrow> int \<Rightarrow> addr \<Rightarrow> size_t \<Rightarrow> ssize_t \<times> os_state" where
  "sys_write os mem fd buffer count =
     (if fd < 0 then (- 1, sys_fail os EBADF)
      else case os_fds os (nat fd) of
        None \<Rightarrow> (- 1, sys_fail os EBADF)
      | Some (Fd_file path off flags) \<Rightarrow>
          (case flags of
             O_rdonly \<Rightarrow> (- 1, sys_fail os EBADF)
           | O_creat_wronly_trunc \<Rightarrow>
               (case path_kind os path of
                  Regular_file \<Rightarrow>
                    (let bs = memcpy_bytes mem buffer count;
                         old = file_bytes os path;
                         new = take off old @ replicate (off - length old) 0 @ bs
                                 @ drop (off + length bs) old;
                         node = (case os_files os path of
                                   None \<Rightarrow> \<lparr>fn_kind = Regular_file, fn_contents = new,
                                              fn_readable = True, fn_writable = True\<rparr>
                                 | Some f \<Rightarrow> f\<lparr>fn_contents := new\<rparr>)
                     in (count,
                         os\<lparr>os_files := (os_files os)(path \<mapsto> node),
                            os_fds := (os_fds os)(nat fd \<mapsto>
                              Fd_file path (off + length bs) flags)\<rparr>))
                | Fifo \<Rightarrow>
                    (count,
                     set_file_bytes os path
                       (file_bytes os path @ memcpy_bytes mem buffer count))))
      | Some (Fd_socket inb outb) \<Rightarrow>
          (count,
           os\<lparr>os_fds := (os_fds os)(nat fd \<mapsto>
                Fd_socket inb (outb @ memcpy_bytes mem buffer count))\<rparr>))"

text \<open>
  \<^verbatim>\<open>lseek(fd, 0, SEEK_SET)\<close>: a regular file goes back to offset 0; a FIFO and a socket
  cannot seek (\<^verbatim>\<open>ESPIPE\<close>).
\<close>

definition sys_lseek_start :: "os_state \<Rightarrow> int \<Rightarrow> int \<times> os_state" where
  "sys_lseek_start os fd =
     (if fd < 0 then (- 1, sys_fail os EBADF)
      else case os_fds os (nat fd) of
        None \<Rightarrow> (- 1, sys_fail os EBADF)
      | Some (Fd_file path off flags) \<Rightarrow>
          (case path_kind os path of
             Regular_file \<Rightarrow> (0, os\<lparr>os_fds := (os_fds os)(nat fd \<mapsto> Fd_file path 0 flags)\<rparr>)
           | Fifo \<Rightarrow> (- 1, sys_fail os ESPIPE))
      | Some (Fd_socket inb outb) \<Rightarrow> (- 1, sys_fail os ESPIPE))"

text \<open>\<^verbatim>\<open>close(fd)\<close>.\<close>

definition sys_close :: "os_state \<Rightarrow> int \<Rightarrow> int \<times> os_state" where
  "sys_close os fd =
     (let os' = os\<lparr>os_close_calls := os_close_calls os @ [fd]\<rparr>
      in if fd < 0 then (- 1, sys_fail os' EBADF)
         else case os_fds os (nat fd) of
           None \<Rightarrow> (- 1, sys_fail os' EBADF)
         | Some e \<Rightarrow> (0, os'\<lparr>os_fds := (os_fds os)(nat fd := None)\<rparr>))"

text \<open>\<^verbatim>\<open>(unsigned int)num_bytes\<close>, passed on where a \<^verbatim>\<open>size_t\<close> is expected.\<close>

definition as_unsigned_int :: "size_t \<Rightarrow> size_t" where
  "as_unsigned_int num_bytes = ucast (ucast num_bytes :: c_uint)"

section \<open>file\_adapter\<close>

text \<open>
  \<^verbatim>\<open>struct file_adapter : public writer, public reader\<close>: the \<^verbatim>\<open>_is_resettable\<close> of
  its \<^verbatim>\<open>reader\<close> base and its two private fields.
\<close>

record file_adapter =
  fa_is_resettable :: bool
  fa_file_descriptor :: int
  fa_mode :: file_mode

text \<open>
  \<^verbatim>\<open>file_adapter::file_adapter(const char* filename, file_mode mode)\<close>. A C string has
  no NUL in it, so \<^verbatim>\<open>*filename != '\0'\<close> says that it is not empty.
\<close>

definition file_adapter_ctor ::
  "os_state \<Rightarrow> string \<Rightarrow> file_mode \<Rightarrow> error + (file_adapter \<times> os_state)" where
  "file_adapter_ctor os filename mode =
     (case (if mode = File_read then sys_open os filename O_rdonly
            else sys_open os filename O_creat_wronly_trunc) of
        (fd, os') \<Rightarrow>
          if fd = - 1 \<and> filename \<noteq> []
          then Inl (Vw_exception (''can't open: '' @ filename) (os_errno os'))
          else Inr (\<lparr>fa_is_resettable = True, fa_file_descriptor = fd, fa_mode = mode\<rparr>, os'))"

text \<open>\<^verbatim>\<open>file_adapter::file_adapter(int file_descriptor, file_mode mode)\<close>.\<close>

definition file_adapter_ctor_fd :: "int \<Rightarrow> file_mode \<Rightarrow> file_adapter" where
  "file_adapter_ctor_fd file_descriptor mode =
     \<lparr>fa_is_resettable = True, fa_file_descriptor = file_descriptor, fa_mode = mode\<rparr>"

text \<open>\<^verbatim>\<open>file_adapter::read\<close>.\<close>

definition file_adapter_read ::
  "file_adapter \<Rightarrow> os_state \<Rightarrow> size_t \<Rightarrow> error + (ssize_t \<times> byte list \<times> os_state)" where
  "file_adapter_read a os num_bytes =
     (if fa_mode a \<noteq> File_read then Inl (Assertion_failed ''_mode == file_mode::read'')
      else Inr (sys_read os (fa_file_descriptor a) (as_unsigned_int num_bytes)))"

text \<open>\<^verbatim>\<open>file_adapter::write\<close>.\<close>

definition file_adapter_write ::
  "file_adapter \<Rightarrow> os_state \<Rightarrow> memory \<Rightarrow> addr \<Rightarrow> size_t \<Rightarrow> error + (ssize_t \<times> os_state)" where
  "file_adapter_write a os mem buffer num_bytes =
     (if fa_mode a \<noteq> File_write then Inl (Assertion_failed ''_mode == file_mode::write'')
      else Inr (sys_write os mem (fa_file_descriptor a) buffer (as_unsigned_int num_bytes)))"

text \<open>\<^verbatim>\<open>file_adapter::reset\<close>: the result of \<^verbatim>\<open>lseek\<close> is dropped.\<close>

definition file_adapter_reset :: "file_adapter \<Rightarrow> os_state \<Rightarrow> os_state" where
  "file_adapter_reset a os = snd (sys_lseek_start os (fa_file_descriptor a))"

text \<open>\<^verbatim>\<open>std::string::c_str()\<close> read as a C string: it ends at the first NUL.\<close>

definition c_str :: "string \<Rightarrow> string" where
  "c_str s = takeWhile (\<lambda>c. c \<noteq> CHR 0x00) s"

text \<open>\<^verbatim>\<open>VW::io::open_file_writer\<close> and \<^verbatim>\<open>VW::io::open_file_reader\<close>.\<close>

definition open_file_writer :: "os_state \<Rightarrow> string \<Rightarrow> error + (file_adapter \<times> os_state)" where
  "open_file_writer os file_path = file_adapter_ctor os (c_str file_path) File_write"

definition open_file_reader :: "os_state \<Rightarrow> string \<Rightarrow> error + (file_adapter \<times> os_state)" where
  "open_file_reader os file_path = file_adapter_ctor os (c_str file_path) File_read"

section \<open>The reader base class\<close>

text \<open>
  Modelled from the spec: \<^verbatim>\<open>reader::reset()\<close> of \<^verbatim>\<open>io_adapter.h\<close>, the member that
  an adapter without a \<^verbatim>\<open>reset\<close> of its own inherits; the header is not among the
  sources. The specification makes \<^verbatim>\<open>reset()\<close> on a reader whose \<^verbatim>\<open>is_resettable\<close>
  is false a contract violation that is rejected, not a call that succeeds.
\<close>

definition reader_reset :: "bool \<Rightarrow> error + unit" where
  "reader_reset is_resettable = (if is_resettable then Inr () else Inl Reset_not_supported)"

section \<open>The compression library under the adapters\<close>

text \<open>
  The zlib calls of the source: \<^verbatim>\<open>gzopen\<close>, \<^verbatim>\<open>gzdopen\<close>, \<^verbatim>\<open>gzread\<close>, \<^verbatim>\<open>gzwrite\<close>
  and \<^verbatim>\<open>gzseek\<close>. A \<^verbatim>\<open>gzFile\<close> is an address, 0 the null pointer. A stream knows its
  descriptor, its direction, its position in the uncompressed data, the uncompressed
  bytes written to it and whether an error has been recorded in it; a recorded error
  stays until the stream is closed. The decompressor itself is a parameter \<open>inflate\<close>:
  from the bytes of the descriptor to the uncompressed bytes it delivers and whether
  they end cleanly, that is, with no data error after them.
\<close>

type_synonym gzFile = nat

record gz_stream =
  gzs_fd :: int
  gzs_mode :: file_mode
  gzs_pos :: nat
  gzs_pending :: "byte list"
  gzs_err :: bool

record gz_state =
  gz_streams :: "nat \<rightharpoonup> gz_stream"
  gz_next :: nat

type_synonym inflate = "byte list \<Rightarrow> byte list \<times> bool"

definition gz_lookup :: "gz_state \<Rightarrow> gzFile \<Rightarrow> gz_stream option" where
  "gz_lookup gz h = (if h = 0 then None else gz_streams gz h)"

definition gz_mode_of :: "string \<Rightarrow> file_mode option" where
  "gz_mode_of m =
     (if CHR ''r'' \<in> set m then Some File_read
      else if CHR ''w'' \<in> set m then Some File_write
      else None)"

text \<open>\<^verbatim>\<open>gzdopen(fd, mode)\<close>: null for the descriptor \<open>- 1\<close> and for a mode it cannot read.\<close>

definition gzdopen :: "gz_state \<Rightarrow> int \<Rightarrow> string \<Rightarrow> gzFile \<times> gz_state" where
  "gzdopen gz fd m =
     (if fd = - 1 then (0, gz)
      else case gz_mode_of m of
        None \<Rightarrow> (0, gz)
      | Some d \<Rightarrow>
          (Suc (gz_next gz),
           gz\<lparr>gz_streams := (gz_streams gz)(Suc (gz_next gz) \<mapsto>
                 \<lparr>gzs_fd = fd, gzs_mode = d, gzs_pos = 0, gzs_pending = [],
                    gzs_err = False\<rparr>),
              gz_next := Suc (gz_next gz)\<rparr>))"

text \<open>\<^verbatim>\<open>gzopen(path, mode)\<close>: opens the file and wraps its descriptor; null when the file
  cannot be opened.\<close>

definition gzopen ::
  "gz_state \<Rightarrow> os_state \<Rightarrow> string \<Rightarrow> string \<Rightarrow> gzFile \<times> gz_state \<times> os_state" where
  "gzopen gz os path m =
     (case gz_mode_of m of
        None \<Rightarrow> (0, gz, os)
      | Some d \<Rightarrow>
          (case sys_open os path (if d = File_read then O_rdonly else O_creat_wronly_trunc) of
             (fd, os') \<Rightarrow> (case gzdopen gz fd m of (h, gz') \<Rightarrow> (h, gz', os'))))"

text \<open>The bytes a descriptor delivers, read from its start.\<close>

definition fd_input :: "os_state \<Rightarrow> int \<Rightarrow> byte list" where
  "fd_input os fd =
     (if fd < 0 then []
      else case os_fds os (nat fd) of
        None \<Rightarrow> []
      | Some (Fd_file path off flags) \<Rightarrow>
          (case flags of O_rdonly \<Rightarrow> file_bytes os path | O_creat_wronly_trunc \<Rightarrow> [])
      | Some (Fd_socket inb outb) \<Rightarrow> inb)"

definition fd_seekable :: "os_state \<Rightarrow> int \<Rightarrow> bool" where
  "fd_seekable os fd =
     (if fd < 0 then False
      else case os_fds os (nat fd) of
        None \<Rightarrow> False
      | Some (Fd_file path off flags) \<Rightarrow> path_kind os path = Regular_file
      | Some (Fd_socket inb outb) \<Rightarrow> False)"

text \<open>
  \<^verbatim>\<open>gzread(file, buffer, len)\<close>: the number of uncompressed bytes read, 0 at the end of
  the data, \<open>- 1\<close> for a null file, a file that is not open for reading and a stream with
  a recorded error. A length that does not fit \<^verbatim>\<open>int\<close> records an error and gives
  \<open>- 1\<close>. So does a call that the bytes before a data error cannot serve in full: the
  bytes it had copied by then are in the buffer, and the position is after them.
\<close>

definition gzread ::
  "inflate \<Rightarrow> gz_state \<Rightarrow> os_state \<Rightarrow> gzFile \<Rightarrow> c_uint \<Rightarrow> c_int \<times> byte list \<times> gz_state" where
  "gzread infl gz os h len =
     (case gz_lookup gz h of
        None \<Rightarrow> (- 1, [], gz)
      | Some s \<Rightarrow>
          if gzs_mode s \<noteq> File_read then (- 1, [], gz)
          else if gzs_err s then (- 1, [], gz)
          else if sint len < 0
          then (- 1, [], gz\<lparr>gz_streams := (gz_streams gz)(h \<mapsto> s\<lparr>gzs_err := True\<rparr>)\<rparr>)
          else (case infl (fd_input os (gzs_fd s)) of
                  (data, clean) \<Rightarrow>
                    (let bs = take (unat len) (drop (gzs_pos s) data)
                     in if length bs < unat len \<and> \<not> clean
                        then (- 1, bs,
                              gz\<lparr>gz_streams := (gz_streams gz)(h \<mapsto>
                                    s\<lparr>gzs_pos := gzs_pos s + length bs, gzs_err := True\<rparr>)\<rparr>)
                        else (of_nat (length bs), bs,
                              gz\<lparr>gz_streams := (gz_streams gz)(h \<mapsto>
                                    s\<lparr>gzs_pos := gzs_pos s + length bs\<rparr>)\<rparr>))))"

text \<open>
  \<^verbatim>\<open>gzwrite(file, buffer, len)\<close>: the number of uncompressed bytes taken, 0 for a null
  file, a file that is not open for writing and a stream with a recorded error. A length
  that does not fit \<^verbatim>\<open>int\<close> records an error and gives 0.
\<close>

definition gzwrite ::
  "gz_state \<Rightarrow> memory \<Rightarrow> gzFile \<Rightarrow> addr \<Rightarrow> c_uint \<Rightarrow> c_int \<times> gz_state" where
  "gzwrite gz mem h buffer len =
     (case gz_lookup gz h of
        None \<Rightarrow> (0, gz)
      | Some s \<Rightarrow>
          if gzs_mode s \<noteq> File_write then (0, gz)
          else if gzs_err s then (0, gz)
          else if sint len < 0
          then (0, gz\<lparr>gz_streams := (gz_streams gz)(h \<mapsto> s\<lparr>gzs_err := True\<rparr>)\<rparr>)
          else (len,
                gz\<lparr>gz_streams := (gz_streams gz)(h \<mapsto>
                      s\<lparr>gzs_pending := gzs_pending s @ memcpy_bytes mem buffer (ucast len)\<rparr>)\<rparr>))"

text \<open>
  \<^verbatim>\<open>gzseek(file, 0, SEEK_SET)\<close>: \<open>- 1\<close> for a null file and for a stream with a recorded
  error. A stream at position 0 stays there. A stream that is read further on starts
  again when \<^verbatim>\<open>lseek\<close> on its descriptor succeeds, and is left as it is when not; a
  stream that is written cannot go back.
\<close>

definition gzseek_start :: "gz_state \<Rightarrow> os_state \<Rightarrow> gzFile \<Rightarrow> int \<times> gz_state" where
  "gzseek_start gz os h =
     (case gz_lookup gz h of
        None \<Rightarrow> (- 1, gz)
      | Some s \<Rightarrow>
          if gzs_err s then (- 1, gz)
          else (case gzs_mode s of
             File_read \<Rightarrow>
               if gzs_pos s = 0 then (0, gz)
               else if fd_seekable os (gzs_fd s)
               then (0, gz\<lparr>gz_streams := (gz_streams gz)(h \<mapsto> s\<lparr>gzs_pos := 0\<rparr>)\<rparr>)
               else (- 1, gz)
           | File_write \<Rightarrow> (if gzs_pending s = [] then (0, gz) else (- 1, gz))))"

section \<open>gzip\_file\_adapter and gzip\_stdio\_adapter\<close>

text \<open>
  \<^verbatim>\<open>(n > 0) ? (size_t)n : 0\<close> on the \<^verbatim>\<open>int\<close> that \<^verbatim>\<open>gzread\<close> or \<^verbatim>\<open>gzwrite\<close>
  returned, as the \<^verbatim>\<open>ssize_t\<close> the adapter returns. The four methods below end with it.
\<close>

definition gz_count :: "c_int \<Rightarrow> ssize_t" where
  "gz_count n = (if 0 < sint n then scast n else 0)"

record gzip_file_adapter =
  gfa_is_resettable :: bool
  gfa_gz_file :: gzFile
  gfa_mode :: file_mode

text \<open>
  \<^verbatim>\<open>gzip_file_adapter::gzip_file_adapter(const char* filename, file_mode mode)\<close>. The
  result of \<^verbatim>\<open>gzopen\<close> is stored as it is (\<^verbatim>\<open>// TODO test for failure\<close>).
\<close>

definition gzip_file_adapter_ctor ::
  "gz_state \<Rightarrow> os_state \<Rightarrow> string \<Rightarrow> file_mode \<Rightarrow> gzip_file_adapter \<times> gz_state \<times> os_state" where
  "gzip_file_adapter_ctor gz os filename mode =
     (let file_mode_arg = (if mode = File_read then ''rb'' else ''wb'')
      in case gzopen gz os filename file_mode_arg of
        (h, gz', os') \<Rightarrow>
          (\<lparr>gfa_is_resettable = True, gfa_gz_file = h, gfa_mode = mode\<rparr>, gz', os'))"

text \<open>\<^verbatim>\<open>gzip_file_adapter::gzip_file_adapter(int file_descriptor, file_mode mode)\<close>.\<close>

definition gzip_file_adapter_ctor_fd ::
  "gz_state \<Rightarrow> int \<Rightarrow> file_mode \<Rightarrow> gzip_file_adapter \<times> gz_state" where
  "gzip_file_adapter_ctor_fd gz file_descriptor mode =
     (let file_mode_arg = (if mode = File_read then ''rb'' else ''wb'')
      in case gzdopen gz file_descriptor file_mode_arg of
        (h, gz') \<Rightarrow> (\<lparr>gfa_is_resettable = True, gfa_gz_file = h, gfa_mode = mode\<rparr>, gz'))"

text \<open>\<^verbatim>\<open>gzip_file_adapter::read\<close>.\<close>

definition gzip_file_adapter_read ::
  "inflate \<Rightarrow> gzip_file_adapter \<Rightarrow> gz_state \<Rightarrow> os_state \<Rightarrow> size_t \<Rightarrow>
     error + (ssize_t \<times> byte list \<times> gz_state)" where
  "gzip_file_adapter_read infl a gz os num_bytes =
     (if gfa_mode a \<noteq> File_read then Inl (Assertion_failed ''_mode == file_mode::read'')
      else case gzread infl gz os (gfa_gz_file a) (ucast num_bytes) of
        (num_read, bs, gz') \<Rightarrow> Inr (gz_count num_read, bs, gz'))"

text \<open>\<^verbatim>\<open>gzip_file_adapter::write\<close>.\<close>

definition gzip_file_adapter_write ::
  "gzip_file_adapter \<Rightarrow> gz_state \<Rightarrow> memory \<Rightarrow> addr \<Rightarrow> size_t \<Rightarrow> error + (ssize_t \<times> gz_state)" where
  "gzip_file_adapter_write a gz mem buffer num_bytes =
     (if gfa_mode a \<noteq> File_write then Inl (Assertion_failed ''_mode == file_mode::write'')
      else case gzwrite gz mem (gfa_gz_file a) buffer (ucast num_bytes) of
        (num_written, gz') \<Rightarrow> Inr (gz_count num_written, gz'))"

text \<open>\<^verbatim>\<open>gzip_file_adapter::reset\<close>: the result of \<^verbatim>\<open>gzseek\<close> is dropped.\<close>

definition gzip_file_adapter_reset :: "gzip_file_adapter \<Rightarrow> gz_state \<Rightarrow> os_state \<Rightarrow> gz_state" where
  "gzip_file_adapter_reset a gz os = snd (gzseek_start gz os (gfa_gz_file a))"

text \<open>\<^verbatim>\<open>VW::io::open_compressed_file_writer\<close> and \<^verbatim>\<open>VW::io::open_compressed_file_reader\<close>.\<close>

definition open_compressed_file_writer ::
  "gz_state \<Rightarrow> os_state \<Rightarrow> string \<Rightarrow> gzip_file_adapter \<times> gz_state \<times> os_state" where
  "open_compressed_file_writer gz os file_path =
     gzip_file_adapter_ctor gz os (c_str file_path) File_write"

definition open_compressed_file_reader ::
  "gz_state \<Rightarrow> os_state \<Rightarrow> string \<Rightarrow> gzip_file_adapter \<times> gz_state \<times> os_state" where
  "open_compressed_file_reader gz os file_path =
     gzip_file_adapter_ctor gz os (c_str file_path) File_read"

text \<open>
  \<^verbatim>\<open>struct gzip_stdio_adapter\<close>: no \<^verbatim>\<open>reset\<close> of its own. \<^verbatim>\<open>fileno(stdin)\<close> is 0 and
  \<^verbatim>\<open>fileno(stdout)\<close> is 1.
\<close>

record gzip_stdio_adapter =
  gsa_is_resettable :: bool
  gsa_gz_stdin :: gzFile
  gsa_gz_stdout :: gzFile

definition gzip_stdio_adapter_ctor :: "gz_state \<Rightarrow> gzip_stdio_adapter \<times> gz_state" where
  "gzip_stdio_adapter_ctor gz =
     (case gzdopen gz 0 ''rb'' of
        (hin, gz1) \<Rightarrow>
          (case gzdopen gz1 1 ''wb'' of
             (hout, gz2) \<Rightarrow>
               (\<lparr>gsa_is_resettable = False, gsa_gz_stdin = hin, gsa_gz_stdout = hout\<rparr>, gz2)))"

definition gzip_stdio_adapter_read ::
  "inflate \<Rightarrow> gzip_stdio_adapter \<Rightarrow> gz_state \<Rightarrow> os_state \<Rightarrow> size_t \<Rightarrow>
     ssize_t \<times> byte list \<times> gz_state" where
  "gzip_stdio_adapter_read infl a gz os num_bytes =
     (case gzread infl gz os (gsa_gz_stdin a) (ucast num_bytes) of
        (num_read, bs, gz') \<Rightarrow> (gz_count num_read, bs, gz'))"

definition gzip_stdio_adapter_write ::
  "gzip_stdio_adapter \<Rightarrow> gz_state \<Rightarrow> memory \<Rightarrow> addr \<Rightarrow> size_t \<Rightarrow> ssize_t \<times> gz_state" where
  "gzip_stdio_adapter_write a gz mem buffer num_bytes =
     (case gzwrite gz mem (gsa_gz_stdout a) buffer (ucast num_bytes) of
        (num_written, gz') \<Rightarrow> (gz_count num_written, gz'))"

text \<open>The inherited \<^verbatim>\<open>reset\<close>.\<close>

definition gzip_stdio_adapter_reset :: "gzip_stdio_adapter \<Rightarrow> error + unit" where
  "gzip_stdio_adapter_reset a = reader_reset (gsa_is_resettable a)"

section \<open>stdio\_adapter\<close>

text \<open>
  The standard streams as \<^verbatim>\<open>std::cin\<close> and \<^verbatim>\<open>std::cout\<close> show them: the input still
  to come and whether \<^verbatim>\<open>cin\<close> is good, the output accepted so far, whether \<^verbatim>\<open>cout\<close> is
  good and how many more bytes its device takes before it fails.
\<close>

record std_streams =
  cin_pending :: "byte list"
  cin_good :: bool
  cout_written :: "byte list"
  cout_good :: bool
  cout_room :: nat

text \<open>
  \<^verbatim>\<open>std::cin.read(buffer, n)\<close> followed by \<^verbatim>\<open>std::cin.gcount()\<close>: a stream that is not
  good extracts nothing; a stream that runs out before \<open>n\<close> bytes is no longer good.
\<close>

definition cin_read :: "std_streams \<Rightarrow> size_t \<Rightarrow> ssize_t \<times> byte list \<times> std_streams" where
  "cin_read io n =
     (if \<not> cin_good io then (0, [], io)
      else (let bs = take (nat (sint n)) (cin_pending io)
            in (of_nat (length bs), bs,
                io\<lparr>cin_pending := drop (length bs) (cin_pending io),
                   cin_good := (sint n \<le> int (length bs))\<rparr>)))"

text \<open>
  \<^verbatim>\<open>std::cout.write(buffer, n)\<close>: a stream that is not good takes nothing; a device that
  takes fewer bytes than offered leaves the stream not good.
\<close>

definition cout_write :: "std_streams \<Rightarrow> memory \<Rightarrow> addr \<Rightarrow> size_t \<Rightarrow> std_streams" where
  "cout_write io mem buffer n =
     (if \<not> cout_good io \<or> sint n \<le> 0 then io
      else (let bs = memcpy_bytes mem buffer n;
                taken = take (cout_room io) bs
            in io\<lparr>cout_written := cout_written io @ taken,
                  cout_room := cout_room io - length taken,
                  cout_good := (length taken = length bs)\<rparr>))"

text \<open>\<^verbatim>\<open>struct stdio_adapter\<close>: nothing but the \<^verbatim>\<open>reader\<close> base, no \<^verbatim>\<open>reset\<close> of its own.\<close>

record stdio_adapter =
  sta_is_resettable :: bool

definition stdio_adapter_ctor :: stdio_adapter where
  "stdio_adapter_ctor = \<lparr>sta_is_resettable = False\<rparr>"

text \<open>\<^verbatim>\<open>stdio_adapter::read\<close> and \<^verbatim>\<open>stdio_adapter::write\<close>.\<close>

definition stdio_adapter_read ::
  "stdio_adapter \<Rightarrow> std_streams \<Rightarrow> size_t \<Rightarrow> ssize_t \<times> byte list \<times> std_streams" where
  "stdio_adapter_read a io num_bytes = cin_read io num_bytes"

definition stdio_adapter_write ::
  "stdio_adapter \<Rightarrow> std_streams \<Rightarrow> memory \<Rightarrow> addr \<Rightarrow> size_t \<Rightarrow> ssize_t \<times> std_streams" where
  "stdio_adapter_write a io mem buffer num_bytes =
     (num_bytes, cout_write io mem buffer num_bytes)"

definition stdio_adapter_reset :: "stdio_adapter \<Rightarrow> error + unit" where
  "stdio_adapter_reset a = reader_reset (sta_is_resettable a)"

section \<open>socket, socket\_closer and socket\_adapter\<close>

text \<open>
  The objects that share a descriptor live in a store. A \<^verbatim>\<open>std::shared_ptr\<close> is the
  address of the \<^verbatim>\<open>socket_closer\<close> it owns; the store keeps the closer with the number
  of shared pointers that own it. A \<^verbatim>\<open>std::unique_ptr\<close> is the address of its object.
\<close>

record socket_closer =
  sc_socket_fd :: int

record socket =
  so_socket_fd :: int
  so_closer :: nat

record socket_adapter =
  sa_is_resettable :: bool
  sa_socket_fd :: int
  sa_closer :: nat

record heap =
  hp_closers :: "nat \<rightharpoonup> socket_closer \<times> nat"
  hp_sockets :: "nat \<rightharpoonup> socket"
  hp_adapters :: "nat \<rightharpoonup> socket_adapter"
  hp_next :: nat

text \<open>\<^verbatim>\<open>details::socket_closer::socket_closer(int fd)\<close> and its destructor.\<close>

definition socket_closer_ctor :: "int \<Rightarrow> socket_closer" where
  "socket_closer_ctor fd = \<lparr>sc_socket_fd = fd\<rparr>"

definition socket_closer_dtor :: "socket_closer \<Rightarrow> os_state \<Rightarrow> os_state" where
  "socket_closer_dtor c os = snd (sys_close os (sc_socket_fd c))"

text \<open>
  \<^verbatim>\<open>std::shared_ptr\<close>: \<^verbatim>\<open>std::make_shared\<close> puts the object in the store with one
  owner, a copy adds an owner, the destruction of a pointer takes one away and, when it
  was the last, destroys the object.
\<close>

definition make_shared_closer :: "heap \<Rightarrow> int \<Rightarrow> nat \<times> heap" where
  "make_shared_closer hp fd =
     (hp_next hp,
      hp\<lparr>hp_closers := (hp_closers hp)(hp_next hp \<mapsto> (socket_closer_ctor fd, 1)),
         hp_next := Suc (hp_next hp)\<rparr>)"

definition shared_ptr_copy :: "heap \<Rightarrow> nat \<Rightarrow> heap" where
  "shared_ptr_copy hp p =
     (case hp_closers hp p of
        None \<Rightarrow> hp
      | Some (c, n) \<Rightarrow> hp\<lparr>hp_closers := (hp_closers hp)(p \<mapsto> (c, Suc n))\<rparr>)"

definition shared_ptr_release :: "heap \<times> os_state \<Rightarrow> nat \<Rightarrow> heap \<times> os_state" where
  "shared_ptr_release w p =
     (case w of (hp, os) \<Rightarrow>
        (case hp_closers hp p of
           None \<Rightarrow> (hp, os)
         | Some (c, n) \<Rightarrow>
             if n \<le> 1
             then (hp\<lparr>hp_closers := (hp_closers hp)(p := None)\<rparr>, socket_closer_dtor c os)
             else (hp\<lparr>hp_closers := (hp_closers hp)(p \<mapsto> (c, n - 1))\<rparr>, os)))"

text \<open>
  Modelled from the spec: the constructor of \<^verbatim>\<open>VW::io::socket\<close>, declared in
  \<^verbatim>\<open>io_adapter.h\<close>, which is not among the sources. The socket owns its descriptor and
  a reference to the shared descriptor closer, which is made for that descriptor.
\<close>

definition socket_ctor :: "heap \<Rightarrow> int \<Rightarrow> socket \<times> heap" where
  "socket_ctor hp fd =
     (case make_shared_closer hp fd of
        (p, hp') \<Rightarrow> (\<lparr>so_socket_fd = fd, so_closer = p\<rparr>, hp'))"

text \<open>\<^verbatim>\<open>VW::io::wrap_socket_descriptor\<close>: the new socket and the pointer to it.\<close>

definition wrap_socket_descriptor :: "heap \<Rightarrow> int \<Rightarrow> nat \<times> heap" where
  "wrap_socket_descriptor hp fd =
     (case socket_ctor hp fd of
        (so, hp') \<Rightarrow>
          (hp_next hp',
           hp'\<lparr>hp_sockets := (hp_sockets hp')(hp_next hp' \<mapsto> so), hp_next := Suc (hp_next hp')\<rparr>))"

text \<open>
  \<^verbatim>\<open>socket_adapter::socket_adapter(int fd, const std::shared_ptr<details::socket_closer>& closer)\<close>:
  the member \<^verbatim>\<open>_closer\<close> is a copy of the pointer.
\<close>

definition socket_adapter_ctor :: "heap \<Rightarrow> int \<Rightarrow> nat \<Rightarrow> socket_adapter \<times> heap" where
  "socket_adapter_ctor hp fd closer =
     (\<lparr>sa_is_resettable = False, sa_socket_fd = fd, sa_closer = closer\<rparr>,
      shared_ptr_copy hp closer)"

definition new_socket_adapter :: "heap \<Rightarrow> socket \<Rightarrow> nat \<times> heap" where
  "new_socket_adapter hp so =
     (case socket_adapter_ctor hp (so_socket_fd so) (so_closer so) of
        (a, hp') \<Rightarrow>
          (hp_next hp',
           hp'\<lparr>hp_adapters := (hp_adapters hp')(hp_next hp' \<mapsto> a), hp_next := Suc (hp_next hp')\<rparr>))"

text \<open>
  \<^verbatim>\<open>socket::get_reader\<close> and \<^verbatim>\<open>socket::get_writer\<close>, called through the pointer \<open>s\<close>;
  there is no result when \<open>s\<close> points to no socket.
\<close>

definition get_reader :: "heap \<Rightarrow> nat \<Rightarrow> (nat \<times> heap) option" where
  "get_reader hp s = map_option (new_socket_adapter hp) (hp_sockets hp s)"

definition get_writer :: "heap \<Rightarrow> nat \<Rightarrow> (nat \<times> heap) option" where
  "get_writer hp s = map_option (new_socket_adapter hp) (hp_sockets hp s)"

text \<open>
  The destruction of the \<^verbatim>\<open>std::unique_ptr\<close> to a socket and to a socket adapter: the
  object goes and with it its member \<^verbatim>\<open>_closer\<close>.
\<close>

definition destroy_socket :: "heap \<times> os_state \<Rightarrow> nat \<Rightarrow> (heap \<times> os_state) option" where
  "destroy_socket w s =
     (case w of (hp, os) \<Rightarrow>
        (case hp_sockets hp s of
           None \<Rightarrow> None
         | Some so \<Rightarrow>
             Some (shared_ptr_release
                     (hp\<lparr>hp_sockets := (hp_sockets hp)(s := None)\<rparr>, os) (so_closer so))))"

definition destroy_socket_adapter :: "heap \<times> os_state \<Rightarrow> nat \<Rightarrow> (heap \<times> os_state) option" where
  "destroy_socket_adapter w a =
     (case w of (hp, os) \<Rightarrow>
        (case hp_adapters hp a of
           None \<Rightarrow> None
         | Some ad \<Rightarrow>
             Some (shared_ptr_release
                     (hp\<lparr>hp_adapters := (hp_adapters hp)(a := None)\<rparr>, os) (sa_closer ad))))"

text \<open>\<^verbatim>\<open>socket_adapter::read\<close> and \<^verbatim>\<open>socket_adapter::write\<close>; the \<^verbatim>\<open>reset\<close> is inherited.\<close>

definition socket_adapter_read ::
  "socket_adapter \<Rightarrow> os_state \<Rightarrow> size_t \<Rightarrow> ssize_t \<times> byte list \<times> os_state" where
  "socket_adapter_read a os num_bytes =
     sys_read os (sa_socket_fd a) (as_unsigned_int num_bytes)"

definition socket_adapter_write ::
  "socket_adapter \<Rightarrow> os_state \<Rightarrow> memory \<Rightarrow> addr \<Rightarrow> size_t \<Rightarrow> ssize_t \<times> os_state" where
  "socket_adapter_write a os mem buffer num_bytes =
     sys_write os mem (sa_socket_fd a) buffer (as_unsigned_int num_bytes)"

definition socket_adapter_reset :: "socket_adapter \<Rightarrow> error + unit" where
  "socket_adapter_reset a = reader_reset (sa_is_resettable a)"

section \<open>vector\_writer\<close>

text \<open>
  \<^verbatim>\<open>struct vector_writer : public writer\<close>: the \<^verbatim>\<open>std::shared_ptr\<close> to the caller's
  vector is the address of that vector in a store of vectors.
\<close>

record vector_writer =
  vw_buffer :: nat


definition vector_writer_ctor :: "nat \<Rightarrow> vector_writer" where
  "vector_writer_ctor buffer = \<lparr>vw_buffer = buffer\<rparr>"


section \<open>Callers and concrete surroundings\<close>

text \<open>A memory of zeros, a system with no file and no open descriptor, no compressed stream.\<close>

definition zero_memory :: memory where
  "zero_memory = (\<lambda>a. 0)"


definition os_init :: os_state where
  "os_init = \<lparr>os_dirs = [], os_files = Map.empty, os_fds = Map.empty, os_next_fd = 3,
     os_errno = 0, os_close_calls = []\<rparr>"

definition gz_init :: gz_state where
  "gz_init = \<lparr>gz_streams = Map.empty, gz_next = 0\<rparr>"

text \<open>A system with the one file \<^verbatim>\<open>data\<close> of five bytes, and data stored uncompressed.\<close>

definition os_one_file :: os_state where
  "os_one_file = os_init\<lparr>os_files := [''data'' \<mapsto>
     \<lparr>fn_kind = Regular_file, fn_contents = [1, 2, 3, 4, 5], fn_readable = True,
        fn_writable = True\<rparr>]\<rparr>"

definition inflate_stored :: inflate where
  "inflate_stored bs = (bs, True)"




text \<open>
  A caller that makes one call after the other on a file adapter or a compressed-file
  adapter, and stops at the first call that does not return. The adapter is carried along
  as the object the methods are called on.
\<close>

datatype io_call = Call_read size_t | Call_write addr size_t | Call_reset

fun file_adapter_call ::
  "memory \<Rightarrow> file_adapter \<times> os_state \<Rightarrow> io_call \<Rightarrow> error + (file_adapter \<times> os_state)" where
  "file_adapter_call mem (a, os) (Call_read n) =
     (case file_adapter_read a os n of Inl e \<Rightarrow> Inl e | Inr (r, bs, os') \<Rightarrow> Inr (a, os'))"
| "file_adapter_call mem (a, os) (Call_write buffer n) =
     (case file_adapter_write a os mem buffer n of Inl e \<Rightarrow> Inl e | Inr (r, os') \<Rightarrow> Inr (a, os'))"
| "file_adapter_call mem (a, os) Call_reset = Inr (a, file_adapter_reset a os)"

fun file_adapter_calls ::
  "memory \<Rightarrow> file_adapter \<times> os_state \<Rightarrow> io_call list \<Rightarrow> error + (file_adapter \<times> os_state)" where
  "file_adapter_calls mem w [] = Inr w"
| "file_adapter_calls mem w (c # cs) =
     (case file_adapter_call mem w c of Inl e \<Rightarrow> Inl e | Inr w' \<Rightarrow> file_adapter_calls mem w' cs)"

fun gzip_file_adapter_call ::
  "inflate \<Rightarrow> memory \<Rightarrow> os_state \<Rightarrow> gzip_file_adapter \<times> gz_state \<Rightarrow> io_call \<Rightarrow>
     error + (gzip_file_adapter \<times> gz_state)" where
  "gzip_file_adapter_call infl mem os (a, gz) (Call_read n) =
     (case gzip_file_adapter_read infl a gz os n of
        Inl e \<Rightarrow> Inl e | Inr (r, bs, gz') \<Rightarrow> Inr (a, gz'))"
| "gzip_file_adapter_call infl mem os (a, gz) (Call_write buffer n) =
     (case gzip_file_adapter_write a gz mem buffer n of
        Inl e \<Rightarrow> Inl e | Inr (r, gz') \<Rightarrow> Inr (a, gz'))"
| "gzip_file_adapter_call infl mem os (a, gz) Call_reset =
     Inr (a, gzip_file_adapter_reset a gz os)"

fun gzip_file_adapter_calls ::
  "inflate \<Rightarrow> memory \<Rightarrow> os_state \<Rightarrow> gzip_file_adapter \<times> gz_state \<Rightarrow> io_call list \<Rightarrow>
     error + (gzip_file_adapter \<times> gz_state)" where
  "gzip_file_adapter_calls infl mem os w [] = Inr w"
| "gzip_file_adapter_calls infl mem os w (c # cs) =
     (case gzip_file_adapter_call infl mem os w c of
        Inl e \<Rightarrow> Inl e | Inr w' \<Rightarrow> gzip_file_adapter_calls infl mem os w' cs)"

section \<open>Callers of a buffer view\<close>

text \<open>
  What a caller may hand to \<^verbatim>\<open>create_buffer_view\<close>: a byte range that lies in the address
  space and is no longer than \<^verbatim>\<open>PTRDIFF_MAX\<close>, as every object is. A request is in range
  when it is at most \<^verbatim>\<open>PTRDIFF_MAX\<close>.
\<close>

definition view_range_ok :: "addr \<Rightarrow> size_t \<Rightarrow> bool" where
  "view_range_ok data len = (unat data + unat len < 2 ^ 64 \<and> unat len < 2 ^ 63)"

definition request_ok :: "size_t \<Rightarrow> bool" where
  "request_ok n = (unat n < 2 ^ 63)"

text \<open>The cursor invariant \<^verbatim>\<open>data <= read_head <= data + len\<close> and the bytes left.\<close>

definition cursor_inv :: "buffer_view \<Rightarrow> bool" where
  "cursor_inv v = (bv_data v \<le> bv_read_head v \<and> bv_read_head v \<le> bv_data v + bv_len v)"

definition bv_remaining :: "buffer_view \<Rightarrow> nat" where
  "bv_remaining v = unat (bv_data v) + unat (bv_len v) - unat (bv_read_head v)"

text \<open>
  A caller that reads and resets in any order. Every call leaves an event: the view
  before, the count returned, the bytes copied and the view after.
\<close>

datatype bv_call = Bv_read size_t | Bv_reset

type_synonym bv_event = "buffer_view \<times> ssize_t \<times> byte list \<times> buffer_view"

fun bv_run :: "memory \<Rightarrow> buffer_view \<Rightarrow> bv_call list \<Rightarrow> bv_event list \<times> buffer_view" where
  "bv_run mem v [] = ([], v)"
| "bv_run mem v (Bv_read n # cs) =
     (case buffer_view_read mem v n of
        (r, bs, v') \<Rightarrow> (case bv_run mem v' cs of (es, w) \<Rightarrow> ((v, r, bs, v') # es, w)))"
| "bv_run mem v (Bv_reset # cs) =
     (case bv_run mem (buffer_view_reset v) cs of
        (es, w) \<Rightarrow> ((v, 0, [], buffer_view_reset v) # es, w))"

fun call_ok :: "bv_call \<Rightarrow> bool" where
  "call_ok (Bv_read n) = (unat n < 2 ^ 63)"
| "call_ok Bv_reset = True"

text \<open>
  An event is in order when the cursor invariant holds after it and the bytes copied,
  as many as the count says, lie between the cursor before it and \<^verbatim>\<open>data + len\<close>. It is
  empty when nothing was returned and nothing moved.
\<close>

definition event_ok :: "bv_event \<Rightarrow> bool" where
  "event_ok e = (case e of (v, r, bs, v') \<Rightarrow>
     cursor_inv v' \<and> bv_data v \<le> bv_read_head v \<and>
     unat (bv_read_head v) + unat r \<le> unat (bv_data v) + unat (bv_len v) \<and>
     length bs = unat r)"

definition event_empty :: "bv_event \<Rightarrow> bool" where
  "event_empty e = (case e of (v, r, bs, v') \<Rightarrow> r = 0 \<and> bs = [] \<and> v' = v)"

definition bytes_returned :: "bv_event list \<Rightarrow> int" where
  "bytes_returned es = sum_list (map (\<lambda>(v, r, bs, v'). sint r) es)"

section \<open>Callers that read a stream to its end\<close>



section \<open>Owners of a wrapped socket\<close>

text \<open>
  What the owners of a wrapped socket can do with it: ask it for a reader or for a writer,
  and destroy the socket or one of the streams it gave out. A step has no result when the
  object it names is not there (any more).
\<close>

datatype socket_event = Get_reader | Get_writer | Destroy_socket | Destroy_stream nat

fun socket_step :: "nat \<Rightarrow> heap \<times> os_state \<Rightarrow> socket_event \<Rightarrow> (heap \<times> os_state) option" where
  "socket_step s (hp, os) Get_reader = map_option (\<lambda>(a, hp'). (hp', os)) (get_reader hp s)"
| "socket_step s (hp, os) Get_writer = map_option (\<lambda>(a, hp'). (hp', os)) (get_writer hp s)"
| "socket_step s (hp, os) Destroy_socket = destroy_socket (hp, os) s"
| "socket_step s (hp, os) (Destroy_stream a) = destroy_socket_adapter (hp, os) a"

fun socket_run :: "nat \<Rightarrow> heap \<times> os_state \<Rightarrow> socket_event list \<Rightarrow> (heap \<times> os_state) option" where
  "socket_run s w [] = Some w"
| "socket_run s w (e # es) =
     (case socket_step s w e of None \<Rightarrow> None | Some w' \<Rightarrow> socket_run s w' es)"

text \<open>The empty store, a system where descriptor 5 is an open socket, and what is still alive.\<close>

definition heap_init :: heap where
  "heap_init = \<lparr>hp_closers = Map.empty, hp_sockets = Map.empty, hp_adapters = Map.empty,
     hp_next = 0\<rparr>"

definition os_socket :: os_state where
  "os_socket = os_init\<lparr>os_fds := [5 \<mapsto> Fd_socket [] []]\<rparr>"

definition nothing_live :: "heap \<Rightarrow> bool" where
  "nothing_live hp = (hp_sockets hp = Map.empty \<and> hp_adapters hp = Map.empty)"

text \<open>
  The number of live objects that hold a pointer to the closer of the socket at address 1,
  and the invariant of the store: the closer at address 0 is there with that number as its
  number of owners and \<^verbatim>\<open>close\<close> has not been called, or no object is left, the closer
  is gone and \<^verbatim>\<open>close\<close> has been called once.
\<close>

definition refs :: "heap \<Rightarrow> nat" where
  "refs hp = card (dom (hp_adapters hp)) + (case hp_sockets hp 1 of None \<Rightarrow> 0 | Some so \<Rightarrow> 1)"

definition sock_inv :: "int \<Rightarrow> int list \<Rightarrow> heap \<times> os_state \<Rightarrow> bool" where
  "sock_inv fd base w = (case w of (hp, os) \<Rightarrow>
     finite (dom (hp_adapters hp)) \<and>
     (\<forall>a ad. hp_adapters hp a = Some ad \<longrightarrow> sa_closer ad = 0 \<and> a < hp_next hp) \<and>
     (\<forall>x so. hp_sockets hp x = Some so \<longrightarrow> x = 1 \<and> so_closer so = 0) \<and>
     (if refs hp = 0
      then hp_closers hp 0 = None \<and> os_close_calls os = base @ [fd]
      else hp_closers hp 0 = Some (\<lparr>sc_socket_fd = fd\<rparr>, refs hp) \<and> os_close_calls os = base))"

section \<open>Properties\<close>

lemma length_memcpy_bytes [simp]: "length (memcpy_bytes mem p n) = unat n"
  by (simp add: memcpy_bytes_def)

subsection \<open>stdio\_adapter::write\<close>

text \<open>
  Claim C10. Every call of the plain stdio adapter's \<^verbatim>\<open>write\<close> returns exactly
  \<open>num_bytes\<close>, whatever \<^verbatim>\<open>std::cout\<close> did with the bytes: the bytes that reached the
  output are a prefix of the bytes offered, empty when the stream was not good, and the
  returned count does not depend on them.
\<close>

theorem stdio_adapter_write_returns_num_bytes:
  "fst (stdio_adapter_write a io mem buffer num_bytes) = num_bytes \<and>
   cout_written (snd (stdio_adapter_write a io mem buffer num_bytes)) =
     cout_written io @
       (if cout_good io \<and> 0 < sint num_bytes
        then take (cout_room io) (memcpy_bytes mem buffer num_bytes) else [])"
  by (simp add: stdio_adapter_write_def cout_write_def Let_def)

text \<open>A stream that has failed takes none of five bytes, and five is returned.\<close>

lemma stdio_adapter_write_failed_stream:
  "stdio_adapter_write stdio_adapter_ctor
     \<lparr>cin_pending = [], cin_good = True, cout_written = [], cout_good = False, cout_room = 0\<rparr>
     zero_memory 0 5 =
   (5, \<lparr>cin_pending = [], cin_good = True, cout_written = [], cout_good = False, cout_room = 0\<rparr>)"
  by (simp add: stdio_adapter_write_def cout_write_def)

subsection \<open>vector\_writer::write\<close>



subsection \<open>The compressed adapters and the codec's count\<close>

lemma sint_gz_count: "sint (gz_count r) = (if 0 < sint r then sint r else 0)"
  by (simp add: gz_count_def sint_up_scast is_up)

text \<open>
  Claim C6. In the compressed-file and the compressed-stdio adapter, \<^verbatim>\<open>read\<close> and
  \<^verbatim>\<open>write\<close> return the codec's count when it is positive and zero otherwise, never a
  negative value: each of the four methods returns \<open>gz_count\<close> of what \<^verbatim>\<open>gzread\<close> or
  \<^verbatim>\<open>gzwrite\<close> returned, and \<open>gz_count r\<close> is \<open>r\<close> for a positive \<open>r\<close> and 0 for every
  other \<open>r\<close>.
\<close>

theorem gzip_adapters_normalise_codec_result:
  "sint (gz_count r) = (if 0 < sint r then sint r else 0) \<and>
   0 \<le> sint (gz_count r) \<and>
   gzip_file_adapter_read infl (a\<lparr>gfa_mode := File_read\<rparr>) gz os num_bytes =
     (case gzread infl gz os (gfa_gz_file a) (ucast num_bytes) of
        (num_read, bs, gz') \<Rightarrow> Inr (gz_count num_read, bs, gz')) \<and>
   gzip_file_adapter_write (a\<lparr>gfa_mode := File_write\<rparr>) gz mem buffer num_bytes =
     (case gzwrite gz mem (gfa_gz_file a) buffer (ucast num_bytes) of
        (num_written, gz') \<Rightarrow> Inr (gz_count num_written, gz')) \<and>
   gzip_stdio_adapter_read infl s gz os num_bytes =
     (case gzread infl gz os (gsa_gz_stdin s) (ucast num_bytes) of
        (num_read, bs, gz') \<Rightarrow> (gz_count num_read, bs, gz')) \<and>
   gzip_stdio_adapter_write s gz mem buffer num_bytes =
     (case gzwrite gz mem (gsa_gz_stdout s) buffer (ucast num_bytes) of
        (num_written, gz') \<Rightarrow> (gz_count num_written, gz'))"
  by (simp add: sint_gz_count gzip_file_adapter_read_def gzip_file_adapter_write_def
      gzip_stdio_adapter_read_def gzip_stdio_adapter_write_def split: prod.splits)

text \<open>The codec's \<open>- 1\<close> for a null file becomes 0.\<close>

lemma gzip_stdio_adapter_read_null_file:
  "gzip_stdio_adapter_read infl
     \<lparr>gsa_is_resettable = False, gsa_gz_stdin = 0, gsa_gz_stdout = 0\<rparr> gz os 16 = (0, [], gz) \<and>
   fst (gzread infl gz os 0 16) = - 1"
  by (simp add: gzip_stdio_adapter_read_def gzread_def gz_lookup_def gz_count_def)

subsection \<open>reset on adapters that are not resettable\<close>

text \<open>
  Claim C4. On a socket adapter, a plain stdio adapter and a compressed stdio adapter, as
  their constructors make them, \<^verbatim>\<open>reset()\<close> is the inherited one and is rejected as a
  contract violation: it does not return, so it neither succeeds silently nor touches
  what later reads deliver.
\<close>

theorem reset_rejected_by_non_resettable_adapters:
  "socket_adapter_reset (fst (socket_adapter_ctor hp fd closer)) = Inl Reset_not_supported \<and>
   stdio_adapter_reset stdio_adapter_ctor = Inl Reset_not_supported \<and>
   gzip_stdio_adapter_reset (fst (gzip_stdio_adapter_ctor gz)) = Inl Reset_not_supported"
  by (simp add: socket_adapter_reset_def socket_adapter_ctor_def stdio_adapter_reset_def
      stdio_adapter_ctor_def gzip_stdio_adapter_reset_def gzip_stdio_adapter_ctor_def
      reader_reset_def split: prod.splits)

subsection \<open>A file adapter on the empty path\<close>

text \<open>
  Claim C3, as amended. Opening a file adapter on the empty path succeeds at construction
  with no error: \<^verbatim>\<open>open\<close> fails, and the adapter keeps the descriptor \<open>- 1\<close>. Every later
  read on that adapter stores no byte and returns \<open>- 1\<close>, the result of \<^verbatim>\<open>read\<close> on a
  descriptor that is not open, and not 0.
\<close>

theorem file_adapter_empty_path:
  "file_adapter_ctor os [] mode =
     Inr (\<lparr>fa_is_resettable = True, fa_file_descriptor = - 1, fa_mode = mode\<rparr>,
          sys_fail os ENOENT) \<and>
   open_file_reader os [] =
     Inr (\<lparr>fa_is_resettable = True, fa_file_descriptor = - 1, fa_mode = File_read\<rparr>,
          sys_fail os ENOENT) \<and>
   file_adapter_read \<lparr>fa_is_resettable = True, fa_file_descriptor = - 1, fa_mode = File_read\<rparr>
       os' num_bytes =
     Inr (- 1, [], sys_fail os' EBADF)"
  by (simp add: file_adapter_ctor_def open_file_reader_def c_str_def sys_open_def
      file_adapter_read_def sys_read_def)

text \<open>
  The claim as it was stated asks for 0 from every read. In a system with no file, the
  reader opened on the empty path returns \<open>- 1\<close> for a read of 16 bytes.
\<close>

theorem file_adapter_empty_path_read_counterexample:
  "open_file_reader os_init [] =
     Inr (\<lparr>fa_is_resettable = True, fa_file_descriptor = - 1, fa_mode = File_read\<rparr>,
          sys_fail os_init ENOENT) \<and>
   file_adapter_read \<lparr>fa_is_resettable = True, fa_file_descriptor = - 1, fa_mode = File_read\<rparr>
       (sys_fail os_init ENOENT) 16 =
     Inr (- 1, [], sys_fail os_init EBADF) \<and>
   sint (- 1 :: ssize_t) = - 1"
  by (simp add: file_adapter_ctor_def open_file_reader_def c_str_def sys_open_def
      file_adapter_read_def sys_read_def sys_fail_def)

subsection \<open>Construction when the resource cannot be acquired\<close>

text \<open>The plain file adapter throws when \<^verbatim>\<open>open\<close> fails on a path that is not empty.\<close>

lemma file_adapter_ctor_open_failure:
  assumes "fst (sys_open os filename (if mode = File_read then O_rdonly else O_creat_wronly_trunc)) = - 1"
    and "filename \<noteq> []"
  shows "file_adapter_ctor os filename mode =
     Inl (Vw_exception (''can't open: '' @ filename)
        (os_errno (snd (sys_open os filename
           (if mode = File_read then O_rdonly else O_creat_wronly_trunc)))))"
  using assms by (auto simp: file_adapter_ctor_def split: prod.splits if_splits)

text \<open>
  A plain-file writer on a path in a directory that does not exist: \<^verbatim>\<open>open\<close> fails
  with \<^verbatim>\<open>ENOENT\<close> and the constructor throws.
\<close>

lemma open_file_writer_missing_directory:
  "open_file_writer os_init ''out/model'' =
     Inl (Vw_exception ''can't open: out/model'' ENOENT)"
  by (simp add: open_file_writer_def c_str_def file_adapter_ctor_def sys_open_def os_init_def
      dir_of_def dir_exists_def sys_fail_def)

text \<open>
  Claim C2, at the input where the code departs from it. A compressed-file reader is
  opened on a path that names no file: \<^verbatim>\<open>open\<close> fails, \<^verbatim>\<open>gzopen\<close> returns null, and
  the constructor returns an adapter with the null file and no error. A read on it
  returns 0 as at the end of a stream.
\<close>

theorem gzip_file_adapter_ctor_open_failure:
  "open_compressed_file_reader gz_init os_init ''missing.gz'' =
     (\<lparr>gfa_is_resettable = True, gfa_gz_file = 0, gfa_mode = File_read\<rparr>,
      gz_init, sys_fail os_init ENOENT) \<and>
   fst (sys_open os_init ''missing.gz'' O_rdonly) = - 1 \<and>
   gzip_file_adapter_read infl
       \<lparr>gfa_is_resettable = True, gfa_gz_file = 0, gfa_mode = File_read\<rparr>
       gz_init (sys_fail os_init ENOENT) 16 =
     Inr (0, [], gz_init)"
  by (simp add: open_compressed_file_reader_def gzip_file_adapter_ctor_def c_str_def
      gzopen_def gz_mode_of_def sys_open_def os_init_def gzdopen_def
      gzip_file_adapter_read_def gzread_def gz_lookup_def gz_count_def)

subsection \<open>The mode of a file-backed adapter\<close>

lemma file_adapter_call_mode:
  "file_adapter_call mem w c = Inr w' \<Longrightarrow> fa_mode (fst w') = fa_mode (fst w)"
  by (cases w; cases c) (auto split: sum.splits)

lemma file_adapter_calls_mode:
  "file_adapter_calls mem w cs = Inr w' \<Longrightarrow> fa_mode (fst w') = fa_mode (fst w)"
proof (induction cs arbitrary: w)
  case Nil
  then show ?case by simp
next
  case (Cons c cs)
  then show ?case
    by (auto split: sum.splits dest!: file_adapter_call_mode)
qed

lemma gzip_file_adapter_call_mode:
  "gzip_file_adapter_call infl mem os w c = Inr w' \<Longrightarrow> gfa_mode (fst w') = gfa_mode (fst w)"
  by (cases w; cases c) (auto split: sum.splits)

lemma gzip_file_adapter_calls_mode:
  "gzip_file_adapter_calls infl mem os w cs = Inr w' \<Longrightarrow> gfa_mode (fst w') = gfa_mode (fst w)"
proof (induction cs arbitrary: w)
  case Nil
  then show ?case by simp
next
  case (Cons c cs)
  then show ?case
    by (auto split: sum.splits dest!: gzip_file_adapter_call_mode)
qed

text \<open>
  Claim C5. On a plain-file and on a compressed-file adapter, \<^verbatim>\<open>read\<close> in write mode and
  \<^verbatim>\<open>write\<close> in read mode fail their assertion: the call aborts and returns no count, not
  even an error count. The mode is the one given to the constructor, and it is the same
  after every sequence of calls of \<^verbatim>\<open>read\<close>, \<^verbatim>\<open>write\<close> and \<^verbatim>\<open>reset\<close>.
\<close>

theorem file_modes_are_asserted:
  "file_adapter_read (a\<lparr>fa_mode := File_write\<rparr>) os num_bytes =
     Inl (Assertion_failed ''_mode == file_mode::read'') \<and>
   file_adapter_write (a\<lparr>fa_mode := File_read\<rparr>) os mem buffer num_bytes =
     Inl (Assertion_failed ''_mode == file_mode::write'') \<and>
   gzip_file_adapter_read infl (g\<lparr>gfa_mode := File_write\<rparr>) gz os num_bytes =
     Inl (Assertion_failed ''_mode == file_mode::read'') \<and>
   gzip_file_adapter_write (g\<lparr>gfa_mode := File_read\<rparr>) gz mem buffer num_bytes =
     Inl (Assertion_failed ''_mode == file_mode::write'') \<and>
   (file_adapter_ctor os0 filename mode = Inr (a', os') \<longrightarrow> fa_mode a' = mode) \<and>
   fa_mode (file_adapter_ctor_fd fd mode) = mode \<and>
   gfa_mode (fst (gzip_file_adapter_ctor gz0 os0 filename mode)) = mode \<and>
   gfa_mode (fst (gzip_file_adapter_ctor_fd gz0 fd mode)) = mode \<and>
   (file_adapter_calls mem (a, os) cs = Inr (a'', os'') \<longrightarrow> fa_mode a'' = fa_mode a) \<and>
   (gzip_file_adapter_calls infl mem os (g, gz) cs = Inr (g', gz') \<longrightarrow> gfa_mode g' = gfa_mode g)"
proof -
  have 1: "file_adapter_ctor os0 filename mode = Inr (a', os') \<longrightarrow> fa_mode a' = mode"
    by (auto simp: file_adapter_ctor_def split: prod.splits if_splits)
  have 2: "gfa_mode (fst (gzip_file_adapter_ctor gz0 os0 filename mode)) = mode"
    by (simp add: gzip_file_adapter_ctor_def Let_def split: prod.splits)
  have 3: "gfa_mode (fst (gzip_file_adapter_ctor_fd gz0 fd mode)) = mode"
    by (simp add: gzip_file_adapter_ctor_fd_def Let_def split: prod.splits)
  have 4: "file_adapter_calls mem (a, os) cs = Inr (a'', os'') \<longrightarrow> fa_mode a'' = fa_mode a"
    using file_adapter_calls_mode [of mem "(a, os)" cs "(a'', os'')"] by simp
  have 5: "gzip_file_adapter_calls infl mem os (g, gz) cs = Inr (g', gz') \<longrightarrow>
      gfa_mode g' = gfa_mode g"
    using gzip_file_adapter_calls_mode [of infl mem os "(g, gz)" cs "(g', gz')"] by simp
  show ?thesis
    using 1 2 3 4 5
    by (simp add: file_adapter_read_def file_adapter_write_def gzip_file_adapter_read_def
        gzip_file_adapter_write_def file_adapter_ctor_fd_def)
qed

text \<open>
  The readers of the file \<^verbatim>\<open>data\<close>: two bytes are read, the adapter is reset, four bytes
  are read.
\<close>

lemma file_adapter_ctor_one_file:
  "file_adapter_ctor os_one_file ''data'' File_read =
     Inr (\<lparr>fa_is_resettable = True, fa_file_descriptor = 3, fa_mode = File_read\<rparr>,
          os_one_file\<lparr>os_fds := [3 \<mapsto> Fd_file ''data'' 0 O_rdonly], os_next_fd := 4\<rparr>)"
  by (simp add: file_adapter_ctor_def sys_open_def os_one_file_def os_init_def install_fd_def)

lemma file_adapter_calls_one_file:
  "file_adapter_calls zero_memory
     (\<lparr>fa_is_resettable = True, fa_file_descriptor = 3, fa_mode = File_read\<rparr>,
      os_one_file\<lparr>os_fds := [3 \<mapsto> Fd_file ''data'' 0 O_rdonly], os_next_fd := 4\<rparr>)
     [Call_read 2, Call_reset, Call_read 4] =
   Inr (\<lparr>fa_is_resettable = True, fa_file_descriptor = 3, fa_mode = File_read\<rparr>,
        os_one_file\<lparr>os_fds := [3 \<mapsto> Fd_file ''data'' 4 O_rdonly], os_next_fd := 4\<rparr>)"
  by (simp add: file_adapter_read_def sys_read_def file_adapter_reset_def sys_lseek_start_def
      as_unsigned_int_def os_one_file_def os_init_def file_bytes_def path_kind_def)
    (simp add: eval_nat_numeral)


lemma gzip_file_adapter_calls_one_file:
  "gzip_file_adapter_calls inflate_stored zero_memory
     (os_one_file\<lparr>os_fds := [3 \<mapsto> Fd_file ''data'' 0 O_rdonly], os_next_fd := 4\<rparr>)
     (\<lparr>gfa_is_resettable = True, gfa_gz_file = 1, gfa_mode = File_read\<rparr>,
      \<lparr>gz_streams = [1 \<mapsto> \<lparr>gzs_fd = 3, gzs_mode = File_read, gzs_pos = 0, gzs_pending = [], gzs_err = False\<rparr>],
         gz_next = 1\<rparr>)
     [Call_read 2, Call_reset, Call_read 4] =
   Inr (\<lparr>gfa_is_resettable = True, gfa_gz_file = 1, gfa_mode = File_read\<rparr>,
      \<lparr>gz_streams = [1 \<mapsto> \<lparr>gzs_fd = 3, gzs_mode = File_read, gzs_pos = 4, gzs_pending = [], gzs_err = False\<rparr>],
         gz_next = 1\<rparr>)"
  by (simp add: gzip_file_adapter_read_def gzread_def gz_lookup_def fd_input_def file_bytes_def
      inflate_stored_def gz_count_def gzip_file_adapter_reset_def gzseek_start_def fd_seekable_def
      os_one_file_def os_init_def path_kind_def)
    (simp add: eval_nat_numeral)

theorem file_modes_are_asserted_witness:
  "file_adapter_ctor os_one_file ''data'' File_read =
     Inr (\<lparr>fa_is_resettable = True, fa_file_descriptor = 3, fa_mode = File_read\<rparr>,
          os_one_file\<lparr>os_fds := [3 \<mapsto> Fd_file ''data'' 0 O_rdonly], os_next_fd := 4\<rparr>) \<and>
   file_adapter_calls zero_memory
     (\<lparr>fa_is_resettable = True, fa_file_descriptor = 3, fa_mode = File_read\<rparr>,
      os_one_file\<lparr>os_fds := [3 \<mapsto> Fd_file ''data'' 0 O_rdonly], os_next_fd := 4\<rparr>)
     [Call_read 2, Call_reset, Call_read 4] =
   Inr (\<lparr>fa_is_resettable = True, fa_file_descriptor = 3, fa_mode = File_read\<rparr>,
        os_one_file\<lparr>os_fds := [3 \<mapsto> Fd_file ''data'' 4 O_rdonly], os_next_fd := 4\<rparr>) \<and>
   gzip_file_adapter_calls inflate_stored zero_memory
     (os_one_file\<lparr>os_fds := [3 \<mapsto> Fd_file ''data'' 0 O_rdonly], os_next_fd := 4\<rparr>)
     (\<lparr>gfa_is_resettable = True, gfa_gz_file = 1, gfa_mode = File_read\<rparr>,
      \<lparr>gz_streams = [1 \<mapsto> \<lparr>gzs_fd = 3, gzs_mode = File_read, gzs_pos = 0, gzs_pending = [], gzs_err = False\<rparr>],
         gz_next = 1\<rparr>)
     [Call_read 2, Call_reset, Call_read 4] =
   Inr (\<lparr>gfa_is_resettable = True, gfa_gz_file = 1, gfa_mode = File_read\<rparr>,
      \<lparr>gz_streams = [1 \<mapsto> \<lparr>gzs_fd = 3, gzs_mode = File_read, gzs_pos = 4, gzs_pending = [], gzs_err = False\<rparr>],
         gz_next = 1\<rparr>) \<and>
   fa_mode \<lparr>fa_is_resettable = True, fa_file_descriptor = 3, fa_mode = File_read\<rparr> = File_read \<and>
   file_adapter_write \<lparr>fa_is_resettable = True, fa_file_descriptor = 3, fa_mode = File_read\<rparr>
     (os_one_file\<lparr>os_fds := [3 \<mapsto> Fd_file ''data'' 0 O_rdonly], os_next_fd := 4\<rparr>)
     zero_memory 0 2 = Inl (Assertion_failed ''_mode == file_mode::write'')"
  using file_modes_are_asserted
    [where a = "\<lparr>fa_is_resettable = True, fa_file_descriptor = 3, fa_mode = File_read\<rparr>"
       and os = "os_one_file\<lparr>os_fds := [3 \<mapsto> Fd_file ''data'' 0 O_rdonly], os_next_fd := 4\<rparr>"
       and os0 = os_one_file and filename = "''data''" and mode = File_read
       and a' = "\<lparr>fa_is_resettable = True, fa_file_descriptor = 3, fa_mode = File_read\<rparr>"
       and os' = "os_one_file\<lparr>os_fds := [3 \<mapsto> Fd_file ''data'' 0 O_rdonly], os_next_fd := 4\<rparr>"
       and mem = zero_memory and buffer = 0 and num_bytes = 2
       and cs = "[Call_read 2, Call_reset, Call_read 4]"
       and a'' = "\<lparr>fa_is_resettable = True, fa_file_descriptor = 3, fa_mode = File_read\<rparr>"
       and os'' = "os_one_file\<lparr>os_fds := [3 \<mapsto> Fd_file ''data'' 4 O_rdonly], os_next_fd := 4\<rparr>"
       and infl = inflate_stored
       and g = "\<lparr>gfa_is_resettable = True, gfa_gz_file = 1, gfa_mode = File_read\<rparr>"
       and gz = "\<lparr>gz_streams = [1 \<mapsto> \<lparr>gzs_fd = 3, gzs_mode = File_read, gzs_pos = 0,
                   gzs_pending = [], gzs_err = False\<rparr>], gz_next = 1\<rparr>"
       and g' = "\<lparr>gfa_is_resettable = True, gfa_gz_file = 1, gfa_mode = File_read\<rparr>"
       and gz' = "\<lparr>gz_streams = [1 \<mapsto> \<lparr>gzs_fd = 3, gzs_mode = File_read, gzs_pos = 4,
                   gzs_pending = [], gzs_err = False\<rparr>], gz_next = 1\<rparr>"]
    file_adapter_ctor_one_file file_adapter_calls_one_file gzip_file_adapter_calls_one_file
  by simp

subsection \<open>A buffer view stays inside its source\<close>

lemma sint_small: "unat (w :: 64 word) < 2 ^ 63 \<Longrightarrow> sint w = int (unat w)"
proof -
  assume a: "unat w < 2 ^ 63"
  have "int (unat w) < int (2 ^ 63)" using a by (simp only: of_nat_less_iff)
  then have lt: "uint w < 2 ^ 63" by simp
  have "- (2 ^ 63) \<le> (0 :: int)" by simp
  then have ge: "- (2 ^ 63) \<le> uint w" by (rule order_trans) simp
  have "signed_take_bit 63 (uint w) = uint w"
    by (rule signed_take_bit_int_eq_self [OF ge lt])
  then have "sint w = uint w" by (simp add: sint_uint)
  then show ?thesis by simp
qed

lemma remaining_word:
  assumes "view_range_ok (bv_data v) (bv_len v)" "cursor_inv v"
  shows "unat ((bv_data v + bv_len v) - bv_read_head v) = bv_remaining v"
    and "bv_remaining v < 2 ^ 63"
    and "unat (bv_read_head v) + bv_remaining v = unat (bv_data v) + unat (bv_len v)"
  using assms unfolding view_range_ok_def cursor_inv_def bv_remaining_def
  by (auto simp: word_le_nat_alt unat_sub unat_word_ariths)

lemma std_min_nat:
  assumes "unat a < 2 ^ 63" "unat b < 2 ^ 63"
  shows "std_min a b = of_nat (min (unat a) (unat b))"
proof -
  have s: "sint a = int (unat a)" "sint b = int (unat b)"
    using assms sint_small by blast+
  have lt: "(sint b < sint a) = (unat b < unat a)"
    unfolding s by (simp only: of_nat_less_iff)
  show ?thesis
  proof (cases "unat b < unat a")
    case True
    then have "min (unat a) (unat b) = unat b" by simp
    then show ?thesis unfolding std_min_def lt using True by simp
  next
    case False
    then have "min (unat a) (unat b) = unat a" by simp
    then show ?thesis unfolding std_min_def lt using False by simp
  qed
qed

lemma buffer_view_read_clipped:
  assumes ok: "view_range_ok (bv_data v) (bv_len v)" and inv: "cursor_inv v"
    and n: "unat n < 2 ^ 63"
  shows "buffer_view_read mem v n =
           (of_nat (min (bv_remaining v) (unat n)),
            memcpy_bytes mem (bv_read_head v) (of_nat (min (bv_remaining v) (unat n))),
            v\<lparr>bv_read_head := bv_read_head v + of_nat (min (bv_remaining v) (unat n))\<rparr>)"
proof -
  let ?r = "(bv_data v + bv_len v) - bv_read_head v"
  have r: "unat ?r = bv_remaining v" "unat ?r < 2 ^ 63"
    using remaining_word [OF ok inv] by simp_all
  have m: "std_min ?r n = of_nat (min (bv_remaining v) (unat n))"
    using std_min_nat [OF r(2) n] r(1) by simp
  show ?thesis
    unfolding buffer_view_read_def Let_def m
    by (simp add: memcpy_bytes_def)
qed

lemma unat_of_nat_min:
  assumes "unat (n :: 64 word) < 2 ^ 63"
  shows "unat (of_nat (min r (unat n)) :: 64 word) = min r (unat n)"
proof -
  have "min r (unat n) < 2 ^ 64" using assms by (simp add: min_def)
  then show ?thesis by (simp add: unat_of_nat)
qed

lemma buffer_view_read_step:
  assumes ok: "view_range_ok (bv_data v) (bv_len v)" and inv: "cursor_inv v"
    and n: "unat n < 2 ^ 63"
    and rd: "buffer_view_read mem v n = (r, bs, v')"
  shows "unat r = min (bv_remaining v) (unat n)"
    and "sint r = int (min (bv_remaining v) (unat n))"
    and "bs = memcpy_bytes mem (bv_read_head v) r"
    and "bv_data v' = bv_data v" and "bv_len v' = bv_len v"
    and "unat (bv_read_head v') = unat (bv_read_head v) + unat r"
    and "cursor_inv v'"
    and "bv_remaining v' = bv_remaining v - unat r"
proof -
  let ?k = "min (bv_remaining v) (unat n)"
  have eqs: "r = of_nat ?k" "bs = memcpy_bytes mem (bv_read_head v) (of_nat ?k)"
    "v' = v\<lparr>bv_read_head := bv_read_head v + of_nat ?k\<rparr>"
    using rd [unfolded buffer_view_read_clipped [OF ok inv n]] by auto
  show u: "unat r = ?k" using eqs(1) unat_of_nat_min [OF n] by simp
  have "unat r < 2 ^ 63" using u n by (simp add: min_def)
  then have s: "sint r = int (unat r)" by (rule sint_small)
  show "sint r = int ?k" unfolding s u by (rule refl)
  show "bs = memcpy_bytes mem (bv_read_head v) r" using eqs by simp
  show d: "bv_data v' = bv_data v" and l: "bv_len v' = bv_len v" using eqs by simp_all
  have rem: "unat (bv_read_head v) + bv_remaining v = unat (bv_data v) + unat (bv_len v)"
    using remaining_word(3) [OF ok inv] .
  have bound: "unat (bv_read_head v) + unat r < 2 ^ 64"
    using rem u ok by (simp add: view_range_ok_def min_def split: if_splits)
  have "bv_read_head v' = bv_read_head v + r" using eqs by simp
  then show h: "unat (bv_read_head v') = unat (bv_read_head v) + unat r"
    using bound by (simp add: unat_add_lem [THEN iffD1])
  have dl: "unat (bv_data v + bv_len v) = unat (bv_data v) + unat (bv_len v)"
    using ok by (simp add: view_range_ok_def unat_add_lem [THEN iffD1])
  show "cursor_inv v'"
    using inv h rem u d l dl unfolding cursor_inv_def word_le_nat_alt
    by (simp add: min_def split: if_splits)
  show "bv_remaining v' = bv_remaining v - unat r"
    using h d l by (simp add: bv_remaining_def)
qed

lemma buffer_view_reset_inv:
  "view_range_ok (bv_data v) (bv_len v) \<Longrightarrow> cursor_inv (buffer_view_reset v)"
  by (simp add: cursor_inv_def buffer_view_reset_def view_range_ok_def word_le_nat_alt
      unat_add_lem [THEN iffD1])

lemma bv_run_events_ok:
  assumes "view_range_ok (bv_data v) (bv_len v)" "cursor_inv v" "\<forall>c\<in>set calls. call_ok c"
  shows "\<forall>e\<in>set (fst (bv_run mem v calls)). event_ok e"
  using assms
proof (induction calls arbitrary: v)
  case Nil
  then show ?case by simp
next
  case (Cons c cs)
  show ?case
  proof (cases c)
    case (Bv_read n)
    obtain r bs v' where rd: "buffer_view_read mem v n = (r, bs, v')"
      by (cases "buffer_view_read mem v n") auto
    have n: "unat n < 2 ^ 63" using Cons.prems(3) Bv_read by simp
    note st = buffer_view_read_step [OF Cons.prems(1,2) n rd]
    have here: "event_ok (v, r, bs, v')"
      using st Cons.prems(1,2) remaining_word(3) [OF Cons.prems(1,2)]
      by (simp add: event_ok_def cursor_inv_def memcpy_bytes_def)
    have rest: "\<forall>e\<in>set (fst (bv_run mem v' cs)). event_ok e"
      using Cons.IH [of v'] Cons.prems st by simp
    show ?thesis using here rest rd Bv_read by (simp split: prod.splits)
  next
    case Bv_reset
    have i: "cursor_inv (buffer_view_reset v)" using buffer_view_reset_inv Cons.prems(1) by simp
    have here: "event_ok (v, 0, [], buffer_view_reset v)"
      using i Cons.prems(1,2)
      by (simp add: event_ok_def cursor_inv_def word_le_nat_alt view_range_ok_def
          unat_add_lem [THEN iffD1])
    have rest: "\<forall>e\<in>set (fst (bv_run mem (buffer_view_reset v) cs)). event_ok e"
      using Cons.IH [of "buffer_view_reset v"] Cons.prems i
      by (simp add: buffer_view_reset_def)
    show ?thesis using here rest Bv_reset by (simp split: prod.splits)
  qed
qed

lemma min_take_int:
  "int (min R n) + int (min (R - min R n) S) = int (min R (n + S))" for R n S :: nat
  by (cases "R \<le> n") (auto simp: min_def)

lemma min_take_nat:
  "R - min R n - S = R - (n + S)" for R n S :: nat
  by (simp add: min_def)

lemma bv_run_read_Cons:
  "buffer_view_read mem v n = (r, bs, v') \<Longrightarrow>
   bv_run mem v (Bv_read n # cs) =
     ((v, r, bs, v') # fst (bv_run mem v' cs), snd (bv_run mem v' cs))"
  by (simp split: prod.splits)

lemma bv_run_reads_total:
  assumes "view_range_ok (bv_data v) (bv_len v)" "cursor_inv v" "\<forall>n\<in>set ns. unat n < 2 ^ 63"
  shows "bytes_returned (fst (bv_run mem v (map Bv_read ns))) =
           int (min (bv_remaining v) (sum_list (map unat ns))) \<and>
         bv_remaining (snd (bv_run mem v (map Bv_read ns))) =
           bv_remaining v - sum_list (map unat ns) \<and>
         cursor_inv (snd (bv_run mem v (map Bv_read ns))) \<and>
         bv_data (snd (bv_run mem v (map Bv_read ns))) = bv_data v \<and>
         bv_len (snd (bv_run mem v (map Bv_read ns))) = bv_len v"
  using assms
proof (induction ns arbitrary: v)
  case Nil
  then show ?case by (simp add: bytes_returned_def)
next
  case (Cons n ns)
  obtain r bs v' where rd: "buffer_view_read mem v n = (r, bs, v')"
    by (cases "buffer_view_read mem v n") auto
  have n: "unat n < 2 ^ 63" using Cons.prems(3) by simp
  note st = buffer_view_read_step [OF Cons.prems(1,2) n rd]
  have ok': "view_range_ok (bv_data v') (bv_len v')" using st Cons.prems(1) by simp
  have ns: "\<forall>n\<in>set ns. unat n < 2 ^ 63" using Cons.prems(3) by simp
  note ih = Cons.IH [OF ok' st(7) ns]
  have run: "bv_run mem v (map Bv_read (n # ns)) =
     ((v, r, bs, v') # fst (bv_run mem v' (map Bv_read ns)), snd (bv_run mem v' (map Bv_read ns)))"
    using bv_run_read_Cons [OF rd] by simp
  have tot: "bytes_returned ((v, r, bs, v') # fst (bv_run mem v' (map Bv_read ns))) =
      sint r + bytes_returned (fst (bv_run mem v' (map Bv_read ns)))"
    by (simp add: bytes_returned_def)
  have a: "sint r + int (min (bv_remaining v') (sum_list (map unat ns))) =
      int (min (bv_remaining v) (sum_list (map unat (n # ns))))"
    unfolding st(2) st(8) st(1) by (simp only: list.map sum_list.Cons min_take_int)
  have b: "bv_remaining v' - sum_list (map unat ns) =
      bv_remaining v - sum_list (map unat (n # ns))"
    unfolding st(8) st(1) by (simp only: list.map sum_list.Cons min_take_nat)
  show ?case
    unfolding run fst_conv snd_conv tot
    using ih a b st(4,5) by simp
qed

lemma call_ok_read: "call_ok (Bv_read n) = request_ok n"
  by (simp add: request_ok_def)

lemma buffer_view_read_exhausted:
  assumes "view_range_ok (bv_data v) (bv_len v)" "cursor_inv v" "unat n < 2 ^ 63"
    and "bv_remaining v = 0"
  shows "buffer_view_read mem v n = (0, [], v)"
proof -
  have "(bv_data v + bv_len v) - bv_read_head v = 0"
    using remaining_word(1) [OF assms(1,2)] assms(4) by (simp add: unat_eq_zero)
  moreover have "std_min 0 n = 0"
    using std_min_nat [of 0 n] assms(3) by simp
  ultimately show ?thesis by (simp add: buffer_view_read_def)
qed

lemma bv_run_exhausted:
  assumes "view_range_ok (bv_data v) (bv_len v)" "cursor_inv v" "\<forall>m\<in>set ms. unat m < 2 ^ 63"
    and "bv_remaining v = 0"
  shows "\<forall>e\<in>set (fst (bv_run mem v (map Bv_read ms))). event_empty e"
  using assms(3)
proof (induction ms)
  case Nil
  then show ?case by simp
next
  case (Cons m ms)
  have rd: "buffer_view_read mem v m = (0, [], v)"
    using buffer_view_read_exhausted [OF assms(1,2) _ assms(4)] Cons.prems by simp
  show ?case
    using Cons rd by (auto simp: event_empty_def split: prod.splits)
qed

lemma buffer_view_ctor_inv:
  assumes "view_range_ok data len"
  shows "cursor_inv (buffer_view_ctor data len)"
    and "bv_remaining (buffer_view_ctor data len) = unat len"
    and "view_range_ok (bv_data (buffer_view_ctor data len)) (bv_len (buffer_view_ctor data len))"
  using assms
  by (simp_all add: cursor_inv_def buffer_view_ctor_def bv_remaining_def view_range_ok_def
      word_le_nat_alt unat_add_lem [THEN iffD1])

text \<open>
  Requests of at most \<^verbatim>\<open>PTRDIFF_MAX\<close> bytes. For a buffer view over a source of length
  L and read calls that each ask for at most that many bytes: when the requested sizes
  sum to more than L, the calls return exactly L bytes in total and every call after them
  returns zero and copies nothing; after every read and every reset the cursor invariant
  \<^verbatim>\<open>data <= read_head <= data + len\<close> holds, and no read copies a byte beyond
  \<^verbatim>\<open>data + len\<close>.
\<close>

lemma buffer_view_reads_in_range:
  assumes ok: "view_range_ok data len"
    and calls: "list_all call_ok calls"
    and ns: "list_all request_ok ns" and ms: "list_all request_ok ms"
    and more: "unat len < sum_list (map unat ns)"
  shows "bytes_returned (fst (bv_run mem (buffer_view_ctor data len) (map Bv_read ns))) = uint len \<and>
         list_all event_empty
           (fst (bv_run mem (snd (bv_run mem (buffer_view_ctor data len) (map Bv_read ns)))
                   (map Bv_read ms))) \<and>
         list_all event_ok (fst (bv_run mem (buffer_view_ctor data len) calls))"
proof -
  let ?v0 = "buffer_view_ctor data len"
  let ?w = "snd (bv_run mem ?v0 (map Bv_read ns))"
  note c = buffer_view_ctor_inv [OF ok]
  have ns': "\<forall>n\<in>set ns. unat n < 2 ^ 63" and ms': "\<forall>n\<in>set ms. unat n < 2 ^ 63"
    using ns ms by (simp_all add: list_all_iff request_ok_def)
  note tot = bv_run_reads_total [OF c(3) c(1) ns', of mem]
  have a: "bytes_returned (fst (bv_run mem ?v0 (map Bv_read ns))) = uint len"
    using tot more c(2) by (simp add: min_def)
  have w: "view_range_ok (bv_data ?w) (bv_len ?w)" "cursor_inv ?w" "bv_remaining ?w = 0"
    using tot more c by simp_all
  have b: "list_all event_empty (fst (bv_run mem ?w (map Bv_read ms)))"
    using bv_run_exhausted [OF w(1,2) ms' w(3)] by (simp add: list_all_iff)
  have "\<forall>c\<in>set calls. call_ok c" using calls by (simp add: list_all_iff)
  then have d: "list_all event_ok (fst (bv_run mem ?v0 calls))"
    using bv_run_events_ok [OF c(3) c(1)] by (simp add: list_all_iff)
  show ?thesis using a b d by simp
qed

text \<open>
  Claim C7, at the input where the code departs from it. A view over four bytes at
  address 4096 is asked for \<^verbatim>\<open>SIZE_MAX\<close> bytes, more than the four it has, so the call
  should return the four bytes and leave the cursor at \<^verbatim>\<open>data + len\<close>. In
  \<^verbatim>\<open>std::min((_data + _len) - _read_head, static_cast<std::ptrdiff_t>(num_bytes))\<close> the
  cast makes the request \<open>- 1\<close>, less than the four bytes left, and \<^verbatim>\<open>std::min\<close> keeps
  it: the count is not zero, \<^verbatim>\<open>memcpy\<close> is asked for \<open>2 ^ 64 - 1\<close> bytes, the cursor
  ends at 4095, below \<^verbatim>\<open>data\<close>, and the call returns \<open>- 1\<close>.
\<close>

theorem buffer_view_read_size_max_request:
  "view_range_ok 4096 4 \<and>
   std_min ((4096 + 4) - 4096) (- 1) = - 1 \<and>
   fst (buffer_view_read zero_memory (buffer_view_ctor 4096 4) (- 1)) = - 1 \<and>
   length (fst (snd (buffer_view_read zero_memory (buffer_view_ctor 4096 4) (- 1)))) =
     18446744073709551615 \<and>
   bv_read_head (snd (snd (buffer_view_read zero_memory (buffer_view_ctor 4096 4) (- 1)))) = 4095 \<and>
   \<not> cursor_inv (snd (snd (buffer_view_read zero_memory (buffer_view_ctor 4096 4) (- 1)))) \<and>
   \<not> list_all event_ok (fst (bv_run zero_memory (buffer_view_ctor 4096 4) [Bv_read (- 1)]))"
proof -
  have rd: "buffer_view_read zero_memory (buffer_view_ctor 4096 4) (- 1) =
      (- 1, memcpy_bytes zero_memory 4096 (- 1),
       \<lparr>bv_data = 4096, bv_read_head = 4095, bv_len = 4\<rparr>)"
    by (simp add: buffer_view_read_def buffer_view_ctor_def std_min_def Let_def)
  have len: "length (memcpy_bytes zero_memory 4096 (- 1 :: size_t)) = 18446744073709551615"
    by (simp add: unsigned_minus_1_eq_mask mask_eq_exp_minus_1)
  have m: "std_min ((4096 + 4) - 4096) (- 1) = - 1"
    by (simp add: std_min_def)
  show ?thesis
    unfolding bv_run.simps rd
    using len m by (simp add: view_range_ok_def cursor_inv_def event_ok_def)
qed

subsection \<open>Reading again after reset\<close>



















subsection \<open>The shared closer of a socket\<close>

lemma close_calls_sys_close: "os_close_calls (snd (sys_close os fd)) = os_close_calls os @ [fd]"
  by (simp add: sys_close_def sys_fail_def Let_def split: option.splits)

lemma wrap_init:
  "wrap_socket_descriptor heap_init fd =
     (1, \<lparr>hp_closers = [0 \<mapsto> (\<lparr>sc_socket_fd = fd\<rparr>, 1)],
          hp_sockets = [1 \<mapsto> \<lparr>so_socket_fd = fd, so_closer = 0\<rparr>],
          hp_adapters = Map.empty, hp_next = 2\<rparr>)"
  by (simp add: wrap_socket_descriptor_def socket_ctor_def make_shared_closer_def heap_init_def
      socket_closer_ctor_def)

lemma sock_inv_init:
  "sock_inv fd (os_close_calls os)
     (\<lparr>hp_closers = [0 \<mapsto> (\<lparr>sc_socket_fd = fd\<rparr>, 1)],
       hp_sockets = [1 \<mapsto> \<lparr>so_socket_fd = fd, so_closer = 0\<rparr>],
       hp_adapters = Map.empty, hp_next = 2\<rparr>, os)"
  by (simp add: sock_inv_def refs_def)

lemma refs_closers_upd [simp]: "refs (hp\<lparr>hp_closers := c\<rparr>) = refs hp"
  by (simp add: refs_def)

lemma release_inv:
  assumes fin: "finite (dom (hp_adapters hp))"
    and ad: "\<forall>a ad. hp_adapters hp a = Some ad \<longrightarrow> sa_closer ad = 0 \<and> a < hp_next hp"
    and so: "\<forall>x so. hp_sockets hp x = Some so \<longrightarrow> x = 1 \<and> so_closer so = 0"
    and cl: "hp_closers hp 0 = Some (\<lparr>sc_socket_fd = fd\<rparr>, Suc (refs hp))"
    and log: "os_close_calls os = base"
  shows "sock_inv fd base (shared_ptr_release (hp, os) 0)"
proof (cases "refs hp = 0")
  case True
  then show ?thesis
    using assms
    by (simp add: sock_inv_def shared_ptr_release_def socket_closer_dtor_def
        close_calls_sys_close)
next
  case False
  then show ?thesis
    using assms
    by (simp add: sock_inv_def shared_ptr_release_def)
qed

lemma new_adapter_inv:
  assumes inv: "sock_inv fd base (hp, os)" and so: "hp_sockets hp 1 = Some so"
  shows "sock_inv fd base (snd (new_socket_adapter hp so), os)"
proof -
  have fin: "finite (dom (hp_adapters hp))"
    and ad: "\<forall>a ad. hp_adapters hp a = Some ad \<longrightarrow> sa_closer ad = 0 \<and> a < hp_next hp"
    and soc: "\<forall>x so. hp_sockets hp x = Some so \<longrightarrow> x = 1 \<and> so_closer so = 0"
    using inv by (simp_all add: sock_inv_def)
  have pos: "refs hp \<noteq> 0" using so by (simp add: refs_def)
  then have cl: "hp_closers hp 0 = Some (\<lparr>sc_socket_fd = fd\<rparr>, refs hp)"
    and log: "os_close_calls os = base"
    using inv by (simp_all add: sock_inv_def)
  have c0: "so_closer so = 0" using soc so by blast
  have "hp_adapters hp (hp_next hp) = None"
  proof (rule ccontr)
    assume "hp_adapters hp (hp_next hp) \<noteq> None"
    then obtain x where "hp_adapters hp (hp_next hp) = Some x" by auto
    then have "hp_next hp < hp_next hp" using ad by blast
    then show False by simp
  qed
  then have fresh: "hp_next hp \<notin> dom (hp_adapters hp)" by (simp add: dom_def)
  let ?hp' = "snd (new_socket_adapter hp so)"
  have ads: "hp_adapters ?hp' = (hp_adapters hp)(hp_next hp \<mapsto>
      \<lparr>sa_is_resettable = False, sa_socket_fd = so_socket_fd so, sa_closer = 0\<rparr>)"
    and socks: "hp_sockets ?hp' = hp_sockets hp"
    and nxt: "hp_next ?hp' = Suc (hp_next hp)"
    and cls: "hp_closers ?hp' 0 = Some (\<lparr>sc_socket_fd = fd\<rparr>, Suc (refs hp))"
    using cl c0
    by (simp_all add: new_socket_adapter_def socket_adapter_ctor_def shared_ptr_copy_def)
  have card: "card (dom (hp_adapters ?hp')) = Suc (card (dom (hp_adapters hp)))"
    unfolding ads using fin fresh by simp
  have r: "refs ?hp' = Suc (refs hp)"
    unfolding refs_def card socks by simp
  show ?thesis
    unfolding sock_inv_def
    using fin ad soc log cls r
    by (auto simp: ads socks nxt less_Suc_eq)
qed


lemma destroy_socket_inv:
  assumes inv: "sock_inv fd base (hp, os)" and d: "destroy_socket (hp, os) 1 = Some w'"
  shows "sock_inv fd base w'"
proof -
  obtain so where so: "hp_sockets hp 1 = Some so"
    and w': "w' = shared_ptr_release (hp\<lparr>hp_sockets := (hp_sockets hp)(1 := None)\<rparr>, os) (so_closer so)"
    using d by (auto simp: destroy_socket_def split: option.splits)
  have fin: "finite (dom (hp_adapters hp))"
    and ad: "\<forall>a ad. hp_adapters hp a = Some ad \<longrightarrow> sa_closer ad = 0 \<and> a < hp_next hp"
    and soc: "\<forall>x so. hp_sockets hp x = Some so \<longrightarrow> x = 1 \<and> so_closer so = 0"
    using inv by (simp_all add: sock_inv_def)
  have pos: "refs hp \<noteq> 0" using so by (simp add: refs_def)
  then have cl: "hp_closers hp 0 = Some (\<lparr>sc_socket_fd = fd\<rparr>, refs hp)"
    and log: "os_close_calls os = base"
    using inv by (simp_all add: sock_inv_def)
  have c0: "so_closer so = 0" using soc so by blast
  let ?hp1 = "hp\<lparr>hp_sockets := (hp_sockets hp)(1 := None)\<rparr>"
  have r: "refs hp = Suc (refs ?hp1)" using so by (simp add: refs_def)
  have soc1: "\<forall>x so. hp_sockets ?hp1 x = Some so \<longrightarrow> x = 1 \<and> so_closer so = 0"
    using soc by simp
  have "sock_inv fd base (shared_ptr_release (?hp1, os) 0)"
  proof (rule release_inv)
    show "finite (dom (hp_adapters ?hp1))" using fin by simp
    show "\<forall>a ad. hp_adapters ?hp1 a = Some ad \<longrightarrow> sa_closer ad = 0 \<and> a < hp_next ?hp1"
      using ad by simp
    show "\<forall>x so. hp_sockets ?hp1 x = Some so \<longrightarrow> x = 1 \<and> so_closer so = 0" by (rule soc1)
    show "hp_closers ?hp1 0 = Some (\<lparr>sc_socket_fd = fd\<rparr>, Suc (refs ?hp1))"
      using cl r by simp
    show "os_close_calls os = base" by (rule log)
  qed
  then show ?thesis using w' c0 by simp
qed

lemma destroy_socket_adapter_inv:
  assumes inv: "sock_inv fd base (hp, os)" and d: "destroy_socket_adapter (hp, os) a = Some w'"
  shows "sock_inv fd base w'"
proof -
  obtain x where x: "hp_adapters hp a = Some x"
    and w': "w' = shared_ptr_release (hp\<lparr>hp_adapters := (hp_adapters hp)(a := None)\<rparr>, os) (sa_closer x)"
    using d by (auto simp: destroy_socket_adapter_def split: option.splits)
  have fin: "finite (dom (hp_adapters hp))"
    and ad: "\<forall>a ad. hp_adapters hp a = Some ad \<longrightarrow> sa_closer ad = 0 \<and> a < hp_next hp"
    and soc: "\<forall>x so. hp_sockets hp x = Some so \<longrightarrow> x = 1 \<and> so_closer so = 0"
    using inv by (simp_all add: sock_inv_def)
  have mem: "a \<in> dom (hp_adapters hp)" using x by (simp add: dom_def)
  then have cpos: "0 < card (dom (hp_adapters hp))" using fin by (auto simp: card_gt_0_iff)
  then have pos: "refs hp \<noteq> 0" by (simp add: refs_def)
  then have cl: "hp_closers hp 0 = Some (\<lparr>sc_socket_fd = fd\<rparr>, refs hp)"
    and log: "os_close_calls os = base"
    using inv by (simp_all add: sock_inv_def)
  have c0: "sa_closer x = 0" using ad x by blast
  let ?hp1 = "hp\<lparr>hp_adapters := (hp_adapters hp)(a := None)\<rparr>"
  have "card (dom (hp_adapters ?hp1)) = card (dom (hp_adapters hp)) - 1"
    using fin mem by simp
  then have r: "refs hp = Suc (refs ?hp1)" using cpos by (simp add: refs_def)
  have "sock_inv fd base (shared_ptr_release (?hp1, os) 0)"
  proof (rule release_inv)
    show "finite (dom (hp_adapters ?hp1))" using fin by simp
    show "\<forall>b ad. hp_adapters ?hp1 b = Some ad \<longrightarrow> sa_closer ad = 0 \<and> b < hp_next ?hp1"
      using ad by simp
    show "\<forall>x so. hp_sockets ?hp1 x = Some so \<longrightarrow> x = 1 \<and> so_closer so = 0"
      using soc by simp
    show "hp_closers ?hp1 0 = Some (\<lparr>sc_socket_fd = fd\<rparr>, Suc (refs ?hp1))"
      using cl r by simp
    show "os_close_calls os = base" by (rule log)
  qed
  then show ?thesis using w' c0 by simp
qed

lemma socket_step_inv:
  assumes "sock_inv fd base w" and "socket_step 1 w e = Some w'"
  shows "sock_inv fd base w'"
proof -
  obtain hp os where w: "w = (hp, os)" by (cases w)
  show ?thesis
  proof (cases e)
    case Get_reader
    then obtain so where "hp_sockets hp 1 = Some so" "w' = (snd (new_socket_adapter hp so), os)"
      using assms(2) w by (auto simp: get_reader_def split: prod.splits)
    then show ?thesis using new_adapter_inv assms(1) w by blast
  next
    case Get_writer
    then obtain so where "hp_sockets hp 1 = Some so" "w' = (snd (new_socket_adapter hp so), os)"
      using assms(2) w by (auto simp: get_writer_def split: prod.splits)
    then show ?thesis using new_adapter_inv assms(1) w by blast
  next
    case Destroy_socket
    then show ?thesis using destroy_socket_inv assms w by simp
  next
    case (Destroy_stream a)
    then show ?thesis using destroy_socket_adapter_inv assms w by simp
  qed
qed

lemma socket_run_inv:
  "sock_inv fd base w \<Longrightarrow> socket_run 1 w evs = Some w' \<Longrightarrow> sock_inv fd base w'"
proof (induction evs arbitrary: w)
  case Nil
  then show ?case by simp
next
  case (Cons e evs)
  then obtain w1 where s: "socket_step 1 w e = Some w1" and r: "socket_run 1 w1 evs = Some w'"
    by (auto split: option.splits)
  show ?case using Cons.IH [OF socket_step_inv [OF Cons.prems(1) s] r] .
qed

lemma sock_inv_closed:
  assumes "sock_inv fd base (hp, os)"
  shows "os_close_calls os = base @ (if nothing_live hp then [fd] else [])"
proof -
  have fin: "finite (dom (hp_adapters hp))"
    and soc: "\<forall>x so. hp_sockets hp x = Some so \<longrightarrow> x = 1 \<and> so_closer so = 0"
    using assms by (simp_all add: sock_inv_def)
  have "hp_sockets hp = Map.empty \<longleftrightarrow> hp_sockets hp 1 = None"
  proof
    assume "hp_sockets hp 1 = None"
    show "hp_sockets hp = Map.empty"
    proof
      fix x show "hp_sockets hp x = None"
        using soc \<open>hp_sockets hp 1 = None\<close> by (cases "hp_sockets hp x") auto
    qed
  qed simp
  moreover have "card (dom (hp_adapters hp)) = 0 \<longleftrightarrow> hp_adapters hp = Map.empty"
    using fin by simp
  ultimately have "refs hp = 0 \<longleftrightarrow> nothing_live hp"
    by (auto simp: refs_def nothing_live_def split: option.splits)
  then show ?thesis using assms by (auto simp: sock_inv_def)
qed

text \<open>
  Claim C1. A socket is wrapped around a descriptor, and its owners ask for readers and
  writers and destroy the socket and the streams in any order. At every moment the calls
  of \<^verbatim>\<open>close\<close> made since the wrapping are: none, as long as the socket or one of its
  streams is alive; exactly one, for that descriptor, once none of them is alive. So the
  descriptor is closed exactly once, with the destruction of the last of them.
\<close>

theorem socket_descriptor_closed_exactly_once:
  assumes "wrap_socket_descriptor heap_init fd = (s, hp)"
    and "socket_run s (hp, os) evs = Some (hp', os')"
  shows "os_close_calls os' = os_close_calls os @ (if nothing_live hp' then [fd] else [])"
proof -
  have eq: "(1, \<lparr>hp_closers = [0 \<mapsto> (\<lparr>sc_socket_fd = fd\<rparr>, 1)],
          hp_sockets = [1 \<mapsto> \<lparr>so_socket_fd = fd, so_closer = 0\<rparr>],
          hp_adapters = Map.empty, hp_next = 2\<rparr>) = (s, hp)"
    using assms(1) unfolding wrap_init .
  have s: "s = 1" using eq by (rule Pair_inject) (rule sym)
  have hp: "hp = \<lparr>hp_closers = [0 \<mapsto> (\<lparr>sc_socket_fd = fd\<rparr>, 1)],
          hp_sockets = [1 \<mapsto> \<lparr>so_socket_fd = fd, so_closer = 0\<rparr>],
          hp_adapters = Map.empty, hp_next = 2\<rparr>"
    using eq by (rule Pair_inject) (rule sym)
  have "sock_inv fd (os_close_calls os) (hp, os)" unfolding hp by (rule sock_inv_init)
  then have "sock_inv fd (os_close_calls os) (hp', os')"
    using assms(2) unfolding s by (rule socket_run_inv)
  then show ?thesis by (rule sock_inv_closed)
qed

text \<open>
  Descriptor 5 is wrapped, a reader and a writer are taken, then the reader, the socket
  and the writer are destroyed: no \<^verbatim>\<open>close\<close> before the writer goes, one after.
\<close>

lemma socket_run_before_last:
  "socket_run 1 (\<lparr>hp_closers = [0 \<mapsto> (\<lparr>sc_socket_fd = 5\<rparr>, 1)],
          hp_sockets = [1 \<mapsto> \<lparr>so_socket_fd = 5, so_closer = 0\<rparr>],
          hp_adapters = Map.empty, hp_next = 2\<rparr>, os_socket)
      [Get_reader, Get_writer, Destroy_stream 2, Destroy_socket] =
   Some (\<lparr>hp_closers = [0 \<mapsto> (\<lparr>sc_socket_fd = 5\<rparr>, 1)], hp_sockets = Map.empty,
           hp_adapters = [3 \<mapsto> \<lparr>sa_is_resettable = False, sa_socket_fd = 5, sa_closer = 0\<rparr>],
           hp_next = 4\<rparr>, os_socket)"
  by (simp add: get_reader_def get_writer_def new_socket_adapter_def socket_adapter_ctor_def
      shared_ptr_copy_def destroy_socket_def destroy_socket_adapter_def shared_ptr_release_def)

lemma socket_run_after_last:
  "socket_run 1 (\<lparr>hp_closers = [0 \<mapsto> (\<lparr>sc_socket_fd = 5\<rparr>, 1)],
          hp_sockets = [1 \<mapsto> \<lparr>so_socket_fd = 5, so_closer = 0\<rparr>],
          hp_adapters = Map.empty, hp_next = 2\<rparr>, os_socket)
      [Get_reader, Get_writer, Destroy_stream 2, Destroy_socket, Destroy_stream 3] =
   Some (\<lparr>hp_closers = Map.empty, hp_sockets = Map.empty, hp_adapters = Map.empty,
           hp_next = 4\<rparr>,
         \<lparr>os_dirs = [], os_files = Map.empty, os_fds = Map.empty, os_next_fd = 3, os_errno = 0,
            os_close_calls = [5]\<rparr>)"
  by (simp add: get_reader_def get_writer_def new_socket_adapter_def socket_adapter_ctor_def
      shared_ptr_copy_def destroy_socket_def destroy_socket_adapter_def shared_ptr_release_def
      socket_closer_dtor_def sys_close_def os_socket_def os_init_def)

theorem socket_descriptor_closed_exactly_once_witness:
  "wrap_socket_descriptor heap_init 5 =
     (1, \<lparr>hp_closers = [0 \<mapsto> (\<lparr>sc_socket_fd = 5\<rparr>, 1)],
          hp_sockets = [1 \<mapsto> \<lparr>so_socket_fd = 5, so_closer = 0\<rparr>],
          hp_adapters = Map.empty, hp_next = 2\<rparr>) \<and>
   socket_run 1 (\<lparr>hp_closers = [0 \<mapsto> (\<lparr>sc_socket_fd = 5\<rparr>, 1)],
          hp_sockets = [1 \<mapsto> \<lparr>so_socket_fd = 5, so_closer = 0\<rparr>],
          hp_adapters = Map.empty, hp_next = 2\<rparr>, os_socket)
      [Get_reader, Get_writer, Destroy_stream 2, Destroy_socket] =
   Some (\<lparr>hp_closers = [0 \<mapsto> (\<lparr>sc_socket_fd = 5\<rparr>, 1)], hp_sockets = Map.empty,
           hp_adapters = [3 \<mapsto> \<lparr>sa_is_resettable = False, sa_socket_fd = 5, sa_closer = 0\<rparr>],
           hp_next = 4\<rparr>, os_socket) \<and>
   os_close_calls os_socket = [] \<and>
   socket_run 1 (\<lparr>hp_closers = [0 \<mapsto> (\<lparr>sc_socket_fd = 5\<rparr>, 1)],
          hp_sockets = [1 \<mapsto> \<lparr>so_socket_fd = 5, so_closer = 0\<rparr>],
          hp_adapters = Map.empty, hp_next = 2\<rparr>, os_socket)
      [Get_reader, Get_writer, Destroy_stream 2, Destroy_socket, Destroy_stream 3] =
   Some (\<lparr>hp_closers = Map.empty, hp_sockets = Map.empty, hp_adapters = Map.empty,
           hp_next = 4\<rparr>,
         \<lparr>os_dirs = [], os_files = Map.empty, os_fds = Map.empty, os_next_fd = 3, os_errno = 0,
            os_close_calls = [5]\<rparr>) \<and>
   nothing_live \<lparr>hp_closers = Map.empty, hp_sockets = Map.empty, hp_adapters = Map.empty,
     hp_next = 4\<rparr> \<and>
   os_close_calls \<lparr>os_dirs = [], os_files = Map.empty, os_fds = Map.empty, os_next_fd = 3, os_errno = 0,
     os_close_calls = [5]\<rparr> = os_close_calls os_socket @ [5]"
  using socket_descriptor_closed_exactly_once [OF wrap_init socket_run_after_last]
    wrap_init [of 5] socket_run_before_last socket_run_after_last
  by (simp add: nothing_live_def os_socket_def os_init_def)

end
